theory Spec2Isabelle
  imports Main
begin

section \<open>Python values used by the program\<close>

text \<open>
  Exceptions are values. Only the classes that the program's handlers tell apart, or that
  the library calls used here can raise, are listed.
\<close>

datatype py_error = ValueError | TypeError | OverflowError | IndexError | PermissionError | OSError

subsection \<open>Naive datetimes\<close>

text \<open>
  A naive \<open>datetime\<close> is represented by the number of microseconds that separate it from
  0001-01-01T00:00:00, the smallest value of the type. The representable values are
  those from 0 up to (excluded) \<open>datetime_limit\<close>, the first microsecond of the year 10000.
  Comparison of datetimes is comparison of these numbers and a \<open>timedelta\<close> is a number of
  microseconds.
\<close>

type_synonym datetime = int
type_synonym timedelta = int

definition microseconds_per_day :: int where
  "microseconds_per_day = 86400000000"

definition MAXORDINAL :: int where
  "MAXORDINAL = 3652059"

definition datetime_limit :: int where
  "datetime_limit = 315537897600000000"

definition valid_datetime :: "datetime \<Rightarrow> bool" where
  "valid_datetime t \<longleftrightarrow> 0 \<le> t \<and> t < datetime_limit"

definition minutes :: "int \<Rightarrow> timedelta" where
  "minutes k = k * 60000000"

definition hours :: "int \<Rightarrow> timedelta" where
  "hours k = k * 3600000000"

definition days :: "int \<Rightarrow> timedelta" where
  "days k = k * 86400000000"

definition weeks :: "int \<Rightarrow> timedelta" where
  "weeks k = k * 604800000000"

definition toordinal :: "datetime \<Rightarrow> int" where
  "toordinal t = t div 86400000000 + 1"

definition dt_hour :: "datetime \<Rightarrow> int" where
  "dt_hour t = (t div 3600000000) mod 24"

definition dt_minute :: "datetime \<Rightarrow> int" where
  "dt_minute t = (t div 60000000) mod 60"

definition dt_second :: "datetime \<Rightarrow> int" where
  "dt_second t = (t div 1000000) mod 60"

definition dt_microsecond :: "datetime \<Rightarrow> int" where
  "dt_microsecond t = t mod 1000000"

definition combine :: "int \<Rightarrow> int \<Rightarrow> int \<Rightarrow> int \<Rightarrow> int \<Rightarrow> datetime" where
  \<comment> \<open>the datetime of a day ordinal and a time of day\<close>
  "combine ord h mi s us = ((((ord - 1) * 24 + h) * 60 + mi) * 60 + s) * 1000000 + us"

definition dt_add :: "datetime \<Rightarrow> timedelta \<Rightarrow> py_error + datetime" where
  \<comment> \<open>\<open>datetime + timedelta\<close>: OverflowError when the day leaves 1..MAXORDINAL\<close>
  "dt_add t d = (if 0 \<le> t + d \<and> t + d < datetime_limit then Inr (t + d) else Inl OverflowError)"

definition check_time_fields :: "int \<Rightarrow> int \<Rightarrow> int \<Rightarrow> int \<Rightarrow> bool" where
  "check_time_fields h mi s us \<longleftrightarrow>
     0 \<le> h \<and> h \<le> 23 \<and> 0 \<le> mi \<and> mi \<le> 59 \<and> 0 \<le> s \<and> s \<le> 59 \<and> 0 \<le> us \<and> us \<le> 999999"

definition replace_hmsu :: "datetime \<Rightarrow> int \<Rightarrow> int \<Rightarrow> int \<Rightarrow> int \<Rightarrow> py_error + datetime" where
  \<comment> \<open>\<open>t.replace(hour=h, minute=mi, second=s, microsecond=us)\<close>. For a field that does
      not fit a C \<open>int\<close> the exception is an OverflowError; every call of \<open>replace\<close> in the
      program is under \<open>except Exception\<close> only, which takes both alike\<close>
  "replace_hmsu t h mi s us =
     (if check_time_fields h mi s us then Inr (combine (toordinal t) h mi s us)
      else Inl ValueError)"

definition replace_msu :: "datetime \<Rightarrow> int \<Rightarrow> int \<Rightarrow> int \<Rightarrow> py_error + datetime" where
  \<comment> \<open>\<open>t.replace(minute=mi, second=s, microsecond=us)\<close>: the hour is kept\<close>
  "replace_msu t mi s us = replace_hmsu t (dt_hour t) mi s us"

subsection \<open>The proleptic Gregorian calendar\<close>

definition is_leap :: "int \<Rightarrow> bool" where
  "is_leap y \<longleftrightarrow> y mod 4 = 0 \<and> (y mod 100 \<noteq> 0 \<or> y mod 400 = 0)"

definition mdays :: "int \<Rightarrow> int" where
  \<comment> \<open>the table of month lengths of a common year, months 1 to 12\<close>
  "mdays m = (if m = 2 then 28 else if m = 4 \<or> m = 6 \<or> m = 9 \<or> m = 11 then 30 else 31)"

definition days_in_month :: "int \<Rightarrow> int \<Rightarrow> int" where
  "days_in_month y m = (if m = 2 \<and> is_leap y then 29 else mdays m)"

definition days_before_month_common :: "int \<Rightarrow> int" where
  \<comment> \<open>the table of the days that precede the first of a month in a common year\<close>
  "days_before_month_common m =
     (if m = 1 then 0 else if m = 2 then 31 else if m = 3 then 59 else if m = 4 then 90
      else if m = 5 then 120 else if m = 6 then 151 else if m = 7 then 181
      else if m = 8 then 212 else if m = 9 then 243 else if m = 10 then 273
      else if m = 11 then 304 else 334)"

definition days_before_month :: "int \<Rightarrow> int \<Rightarrow> int" where
  "days_before_month y m = days_before_month_common m + (if m > 2 \<and> is_leap y then 1 else 0)"

definition days_before_year :: "int \<Rightarrow> int" where
  "days_before_year y = (y - 1) * 365 + (y - 1) div 4 - (y - 1) div 100 + (y - 1) div 400"

definition ymd2ord :: "int \<Rightarrow> int \<Rightarrow> int \<Rightarrow> int" where
  "ymd2ord y m d = days_before_year y + days_before_month y m + d"

definition month_day :: "bool \<Rightarrow> int \<Rightarrow> int \<times> int" where
  \<comment> \<open>month and day of the day \<open>n\<close> of a year, counted from 0: an estimate of the month,
      one too large at most, then its correction\<close>
  "month_day leapyear n =
     (let m = (n + 50) div 32;
          preceding = days_before_month_common m + (if m > 2 \<and> leapyear then 1 else 0)
      in if preceding > n
         then (m - 1,
               n - (preceding - (mdays (m - 1) + (if m - 1 = 2 \<and> leapyear then 1 else 0))) + 1)
         else (m, n - preceding + 1))"

definition ord2ymd :: "int \<Rightarrow> int \<times> int \<times> int" where
  \<comment> \<open>year, month and day of a day ordinal, by the 400/100/4/1-year cycles\<close>
  "ord2ymd n0 =
     (let n = n0 - 1;
          n400 = n div 146097; n = n mod 146097;
          n100 = n div 36524; n = n mod 36524;
          n4 = n div 1461; n = n mod 1461;
          n1 = n div 365; n = n mod 365;
          y = n400 * 400 + 1 + n100 * 100 + n4 * 4 + n1
      in if n1 = 4 \<or> n100 = 4 then (y - 1, 12, 31)
         else (y, month_day (n1 = 3 \<and> (n4 \<noteq> 24 \<or> n100 = 3)) n))"

definition dt_year :: "datetime \<Rightarrow> int" where
  "dt_year t = fst (ord2ymd (toordinal t))"

definition dt_month :: "datetime \<Rightarrow> int" where
  "dt_month t = fst (snd (ord2ymd (toordinal t)))"

definition dt_day :: "datetime \<Rightarrow> int" where
  "dt_day t = snd (snd (ord2ymd (toordinal t)))"

definition dt_weekday :: "datetime \<Rightarrow> int" where
  \<comment> \<open>Monday is 0\<close>
  "dt_weekday t = (toordinal t + 6) mod 7"

definition c_int :: "int \<Rightarrow> bool" where
  \<comment> \<open>the values that fit the C \<open>int\<close> that the constructor of \<open>datetime\<close> reads its
      arguments into\<close>
  "c_int x \<longleftrightarrow> - 2147483648 \<le> x \<and> x \<le> 2147483647"

definition mk_datetime :: "int \<Rightarrow> int \<Rightarrow> int \<Rightarrow> int \<Rightarrow> int \<Rightarrow> py_error + datetime" where
  \<comment> \<open>the constructor \<open>datetime(year, month, day, hour, minute)\<close>: OverflowError for an
      argument that does not fit a C \<open>int\<close>, ValueError for one out of its range\<close>
  "mk_datetime y m d h mi =
     (if \<not> (c_int y \<and> c_int m \<and> c_int d \<and> c_int h \<and> c_int mi) then Inl OverflowError
      else if 1 \<le> y \<and> y \<le> 9999 \<and> 1 \<le> m \<and> m \<le> 12 \<and> 1 \<le> d \<and> d \<le> days_in_month y m
         \<and> check_time_fields h mi 0 0
      then Inr (combine (ymd2ord y m d) h mi 0 0)
      else Inl ValueError)"

definition monthrange_ndays :: "int \<Rightarrow> int \<Rightarrow> py_error + int" where
  \<comment> \<open>\<open>calendar.monthrange(year, month)[1]\<close>; IllegalMonthError is a ValueError\<close>
  "monthrange_ndays y m = (if 1 \<le> m \<and> m \<le> 12 then Inr (days_in_month y m) else Inl ValueError)"

section \<open>BackupTask\<close>

text \<open>
  \<open>time_params\<close> is an int for an hourly task and a tuple of ints for the other kinds; a
  task reloaded from \<open>tasks.json\<close> holds a list where a tuple was saved.
\<close>

datatype time_params = PInt int | PTuple "int list" | PList "int list"

fun unpack2 :: "time_params \<Rightarrow> py_error + (int \<times> int)" where
  "unpack2 (PInt _) = Inl TypeError"
| "unpack2 (PTuple [a, b]) = Inr (a, b)"
| "unpack2 (PTuple _) = Inl ValueError"
| "unpack2 (PList [a, b]) = Inr (a, b)"
| "unpack2 (PList _) = Inl ValueError"

fun unpack3 :: "time_params \<Rightarrow> py_error + (int \<times> int \<times> int)" where
  "unpack3 (PInt _) = Inl TypeError"
| "unpack3 (PTuple [a, b, c]) = Inr (a, b, c)"
| "unpack3 (PTuple _) = Inl ValueError"
| "unpack3 (PList [a, b, c]) = Inr (a, b, c)"
| "unpack3 (PList _) = Inl ValueError"

record BackupTask =
  name :: string
  source :: string
  destination :: string
  compression :: bool
  frequency :: string
  time_params :: time_params
  last_run :: "datetime option"
  next_run :: datetime

text \<open>
  \<open>calculate_next_run\<close> with the reference time given. The outer \<open>case\<close> is the
  \<open>try\<close>/\<open>except Exception\<close> of the source: whatever the body raises is replaced by
  \<open>now + timedelta(minutes=5)\<close>, and only the failure of that addition leaves the function.
\<close>

function calculate_next_run :: "'a BackupTask_scheme \<Rightarrow> datetime \<Rightarrow> py_error + datetime" where
  "calculate_next_run self now =
     (case
        (if frequency self = ''hourly'' then
           (case time_params self of
              PInt m \<Rightarrow>
                (case replace_msu now m 0 0 of
                   Inl e \<Rightarrow> Inl e
                 | Inr nxt \<Rightarrow> if nxt \<le> now then dt_add nxt (hours 1) else Inr nxt)
            | PTuple _ \<Rightarrow> Inl TypeError
            | PList _ \<Rightarrow> Inl TypeError)
         else if frequency self = ''daily'' then
           (case unpack2 (time_params self) of
              Inl e \<Rightarrow> Inl e
            | Inr (h, mi) \<Rightarrow>
                (case replace_hmsu now h mi 0 0 of
                   Inl e \<Rightarrow> Inl e
                 | Inr nxt \<Rightarrow> if nxt \<le> now then dt_add nxt (days 1) else Inr nxt))
         else if frequency self = ''weekly'' then
           (case unpack3 (time_params self) of
              Inl e \<Rightarrow> Inl e
            | Inr (wd, h, mi) \<Rightarrow>
                (let days_ahead = (wd - dt_weekday now) mod 7 in
                 case replace_hmsu now h mi 0 0 of
                   Inl e \<Rightarrow> Inl e
                 | Inr r \<Rightarrow>
                     (case dt_add r (days days_ahead) of
                        Inl e \<Rightarrow> Inl e
                      | Inr nxt \<Rightarrow> if nxt \<le> now then dt_add nxt (weeks 1) else Inr nxt)))
         else if frequency self = ''monthly'' then
           (case unpack3 (time_params self) of
              Inl e \<Rightarrow> Inl e
            | Inr (d, h, mi) \<Rightarrow>
                (let next_month = (if dt_month now + 1 > 12 then 1 else dt_month now + 1);
                     next_year = (if dt_month now + 1 > 12 then dt_year now + 1 else dt_year now)
                 in case (case mk_datetime next_year next_month d h mi of
                            Inr nxt \<Rightarrow> Inr nxt
                          | Inl e \<Rightarrow>
                              if e = ValueError then
                                (case monthrange_ndays next_year next_month of
                                   Inl e' \<Rightarrow> Inl e'
                                 | Inr last_day \<Rightarrow> mk_datetime next_year next_month last_day h mi)
                              else Inl e) of
                      Inl e \<Rightarrow> Inl e
                    | Inr nxt \<Rightarrow>
                        if nxt > now then Inr nxt
                        else (case dt_add now (days 1) of
                                Inl e \<Rightarrow> Inl e
                              | Inr now' \<Rightarrow> calculate_next_run self now')))
         else Inr now)
      of Inr r \<Rightarrow> Inr r
       | Inl e \<Rightarrow> dt_add now (minutes 5))"
  by pat_completeness auto
termination
proof (relation "measure (\<lambda>(self, now). nat (datetime_limit - now))")
  show "wf (measure (\<lambda>(self, now). nat (datetime_limit - now)))"
    by simp
next
  fix self :: "'a BackupTask_scheme" and now now' :: int
  assume "dt_add now (days 1) = Inr now'"
  then have "now' = now + 86400000000" and "now' < datetime_limit"
    by (auto simp: dt_add_def days_def split: if_splits)
  then show "((self, now'), (self, now)) \<in> measure (\<lambda>(self, now). nat (datetime_limit - now))"
    by simp
qed

declare calculate_next_run.simps [simp del]

text \<open>
  The \<open>try\<close> block of \<open>calculate_next_run\<close> on its own, for the proofs: \<open>rec\<close> stands for
  the value of \<open>self.calculate_next_run(now + timedelta(days=1))\<close>.
\<close>

definition try_block :: "'a BackupTask_scheme \<Rightarrow> datetime \<Rightarrow> py_error + datetime \<Rightarrow> py_error + datetime" where
  "try_block self now rec =
     (if frequency self = ''hourly'' then
        (case time_params self of
           PInt m \<Rightarrow>
             (case replace_msu now m 0 0 of
                Inl e \<Rightarrow> Inl e
              | Inr nxt \<Rightarrow> if nxt \<le> now then dt_add nxt (hours 1) else Inr nxt)
         | PTuple _ \<Rightarrow> Inl TypeError
         | PList _ \<Rightarrow> Inl TypeError)
      else if frequency self = ''daily'' then
        (case unpack2 (time_params self) of
           Inl e \<Rightarrow> Inl e
         | Inr (h, mi) \<Rightarrow>
             (case replace_hmsu now h mi 0 0 of
                Inl e \<Rightarrow> Inl e
              | Inr nxt \<Rightarrow> if nxt \<le> now then dt_add nxt (days 1) else Inr nxt))
      else if frequency self = ''weekly'' then
        (case unpack3 (time_params self) of
           Inl e \<Rightarrow> Inl e
         | Inr (wd, h, mi) \<Rightarrow>
             (let days_ahead = (wd - dt_weekday now) mod 7 in
              case replace_hmsu now h mi 0 0 of
                Inl e \<Rightarrow> Inl e
              | Inr r \<Rightarrow>
                  (case dt_add r (days days_ahead) of
                     Inl e \<Rightarrow> Inl e
                   | Inr nxt \<Rightarrow> if nxt \<le> now then dt_add nxt (weeks 1) else Inr nxt)))
      else if frequency self = ''monthly'' then
        (case unpack3 (time_params self) of
           Inl e \<Rightarrow> Inl e
         | Inr (d, h, mi) \<Rightarrow>
             (let next_month = (if dt_month now + 1 > 12 then 1 else dt_month now + 1);
                  next_year = (if dt_month now + 1 > 12 then dt_year now + 1 else dt_year now)
              in case (case mk_datetime next_year next_month d h mi of
                         Inr nxt \<Rightarrow> Inr nxt
                       | Inl e \<Rightarrow>
                           if e = ValueError then
                             (case monthrange_ndays next_year next_month of
                                Inl e' \<Rightarrow> Inl e'
                              | Inr last_day \<Rightarrow> mk_datetime next_year next_month last_day h mi)
                           else Inl e) of
                   Inl e \<Rightarrow> Inl e
                 | Inr nxt \<Rightarrow>
                     if nxt > now then Inr nxt
                     else rec))
      else Inr now)"

text \<open>
  \<open>BackupTask.__init__\<close>: \<open>last_run\<close> is None and \<open>next_run\<close> is computed at once, at the
  time \<open>now\<close> the clock shows. An exception of \<open>calculate_next_run\<close> leaves the constructor.
\<close>

definition BackupTask_init ::
  "string \<Rightarrow> string \<Rightarrow> string \<Rightarrow> bool \<Rightarrow> string \<Rightarrow> time_params \<Rightarrow> datetime
     \<Rightarrow> py_error + BackupTask" where
  "BackupTask_init nm src dst cmp frq tp now =
     (let self = \<lparr>name = nm, source = src, destination = dst, compression = cmp,
                  frequency = frq, time_params = tp, last_run = None, next_run = now\<rparr>
      in case calculate_next_run self now of
           Inl e \<Rightarrow> Inl e
         | Inr r \<Rightarrow> Inr (self\<lparr>next_run := r\<rparr>))"

section \<open>Persistence of the task list\<close>

text \<open>
  The dictionary of \<open>to_dict\<close>. \<open>last_run\<close> is stored as the ISO text of the datetime, which
  \<open>datetime.fromisoformat\<close> reads back to the same value; the text is represented by the
  datetime it denotes. \<open>next_run\<close> is not stored.
\<close>

datatype iso_text = Iso datetime

record task_dict =
  d_name :: string
  d_source :: string
  d_destination :: string
  d_compression :: bool
  d_frequency :: string
  d_time_params :: time_params
  d_last_run :: "iso_text option"

definition to_dict :: "BackupTask \<Rightarrow> task_dict" where
  "to_dict self =
     \<lparr>d_name = name self, d_source = source self, d_destination = destination self,
      d_compression = compression self, d_frequency = frequency self,
      d_time_params = time_params self,
      d_last_run = (case last_run self of Some t \<Rightarrow> Some (Iso t) | None \<Rightarrow> None)\<rparr>"

fun json_params :: "time_params \<Rightarrow> time_params" where
  \<comment> \<open>\<open>json.dump\<close> then \<open>json.load\<close>: a tuple is written as an array and read as a list\<close>
  "json_params (PInt m) = PInt m"
| "json_params (PTuple xs) = PList xs"
| "json_params (PList xs) = PList xs"

definition json_dump_load :: "task_dict \<Rightarrow> task_dict" where
  \<comment> \<open>what \<open>load_tasks\<close> reads of an item that \<open>save_tasks\<close> wrote\<close>
  "json_dump_load item = item\<lparr>d_time_params := json_params (d_time_params item)\<rparr>"

definition load_task :: "task_dict \<Rightarrow> datetime \<Rightarrow> datetime \<Rightarrow> py_error + BackupTask" where
  \<comment> \<open>the body of the loop of \<open>load_tasks\<close>; the clock shows \<open>t1\<close> in the constructor and
      \<open>t2\<close> at the second call of \<open>calculate_next_run\<close>\<close>
  "load_task item t1 t2 =
     (case BackupTask_init (d_name item) (d_source item) (d_destination item)
             (d_compression item) (d_frequency item) (d_time_params item) t1 of
        Inl e \<Rightarrow> Inl e
      | Inr task \<Rightarrow>
          (let task = task\<lparr>last_run := (case d_last_run item of
                                           Some (Iso t) \<Rightarrow> Some t | None \<Rightarrow> None)\<rparr>
           in case calculate_next_run task t2 of
                Inl e \<Rightarrow> Inl e
              | Inr r \<Rightarrow> Inr (task\<lparr>next_run := r\<rparr>)))"

fun param_values :: "time_params \<Rightarrow> int list" where
  "param_values (PInt m) = [m]"
| "param_values (PTuple xs) = xs"
| "param_values (PList xs) = xs"

fun is_sequence :: "time_params \<Rightarrow> bool" where
  "is_sequence (PInt m) = False"
| "is_sequence (PTuple xs) = True"
| "is_sequence (PList xs) = True"

section \<open>The scheduler\<close>

definition is_due :: "'a BackupTask_scheme \<Rightarrow> datetime \<Rightarrow> bool" where
  \<comment> \<open>the test \<open>task.next_run <= now\<close> of \<open>scheduler_loop\<close>\<close>
  "is_due task now \<longleftrightarrow> next_run task \<le> now"

definition claim :: "BackupTask \<Rightarrow> datetime \<Rightarrow> datetime \<Rightarrow> py_error + BackupTask" where
  \<comment> \<open>what \<open>scheduler_loop\<close> does to a due task: \<open>last_run\<close> is the \<open>now\<close> of the tick,
      \<open>next_run\<close> is computed by \<open>calculate_next_run()\<close>, which reads the clock again
      (\<open>now'\<close>). An exception leaves the tick with \<open>last_run\<close> set and \<open>next_run\<close> as it was.\<close>
  "claim task now now' =
     (let task = task\<lparr>last_run := Some now\<rparr>
      in case calculate_next_run task now' of
           Inl e \<Rightarrow> Inl e
         | Inr r \<Rightarrow> Inr (task\<lparr>next_run := r\<rparr>))"

section \<open>The status line\<close>

datatype status_text = BackupRunning | NoActiveTasks | WorksInBackground

datatype next_task_text = Countdown int int | DueNow | NoNextTask

record status =
  status_text :: status_text
  color :: string
  next_task_text :: next_task_text

definition nearest :: "BackupTask list \<Rightarrow> datetime option" where
  \<comment> \<open>\<open>min(next_tasks, default=None)\<close>; a datetime is never falsy, so no task is left out\<close>
  "nearest tasks =
     (case map next_run tasks of [] \<Rightarrow> None | t # ts \<Rightarrow> Some (fold min ts t))"

definition timedelta_seconds :: "timedelta \<Rightarrow> int" where
  \<comment> \<open>the attribute \<open>seconds\<close> of a timedelta: the seconds within the day, 0 to 86399\<close>
  "timedelta_seconds d = (d mod 86400000000) div 1000000"

definition update_status :: "datetime \<Rightarrow> BackupTask list \<Rightarrow> int \<Rightarrow> status" where
  "update_status now tasks running =
     \<lparr>status_text =
        (if running > 0 then BackupRunning
         else if tasks = [] then NoActiveTasks else WorksInBackground),
      color =
        (if running > 0 then ''orange'' else if tasks = [] then ''red'' else ''green''),
      next_task_text =
        (case nearest tasks of
           Some n \<Rightarrow>
             (let delta = n - now in
              if delta > 0 then
                (let h = timedelta_seconds delta div 3600;
                     remainder = timedelta_seconds delta mod 3600
                 in Countdown h (remainder div 60))
              else DueNow)
         | None \<Rightarrow> NoNextTask)\<rparr>"

section \<open>The task dialog and the edit of a task\<close>

text \<open>
  The fields of the dialog when OK is pressed. A spinbox holds a text: \<open>None\<close> is a text
  that \<open>int\<close> refuses. \<open>f_weekday\<close> is the index of the selected weekday, -1 without one.
\<close>

record task_form =
  f_name :: string
  f_source :: string
  f_dest :: string
  f_compression :: bool
  f_frequency :: string
  f_day :: "int option"
  f_weekday :: int
  f_hour :: "int option"
  f_minute :: "int option"

definition int_of_spinbox :: "int option \<Rightarrow> py_error + int" where
  "int_of_spinbox x = (case x of Some v \<Rightarrow> Inr v | None \<Rightarrow> Inl ValueError)"

definition form_time_params :: "task_form \<Rightarrow> py_error + time_params" where
  "form_time_params f =
     (if f_frequency f = ''hourly'' then
        (case int_of_spinbox (f_minute f) of
           Inl e \<Rightarrow> Inl e
         | Inr mi \<Rightarrow> if \<not> (0 \<le> mi \<and> mi \<le> 59) then Inl ValueError else Inr (PInt mi))
      else if f_frequency f = ''daily'' then
        (case int_of_spinbox (f_hour f) of
           Inl e \<Rightarrow> Inl e
         | Inr h \<Rightarrow>
             (case int_of_spinbox (f_minute f) of
                Inl e \<Rightarrow> Inl e
              | Inr mi \<Rightarrow>
                  if \<not> (0 \<le> h \<and> h \<le> 23) \<or> \<not> (0 \<le> mi \<and> mi \<le> 59) then Inl ValueError
                  else Inr (PTuple [h, mi])))
      else if f_frequency f = ''weekly'' then
        (case int_of_spinbox (f_hour f) of
           Inl e \<Rightarrow> Inl e
         | Inr h \<Rightarrow>
             (case int_of_spinbox (f_minute f) of
                Inl e \<Rightarrow> Inl e
              | Inr mi \<Rightarrow>
                  if f_weekday f < 0 \<or> \<not> (0 \<le> h \<and> h \<le> 23) \<or> \<not> (0 \<le> mi \<and> mi \<le> 59)
                  then Inl ValueError
                  else Inr (PTuple [f_weekday f, h, mi])))
      else if f_frequency f = ''monthly'' then
        (case int_of_spinbox (f_day f) of
           Inl e \<Rightarrow> Inl e
         | Inr d \<Rightarrow>
             (case int_of_spinbox (f_hour f) of
                Inl e \<Rightarrow> Inl e
              | Inr h \<Rightarrow>
                  (case int_of_spinbox (f_minute f) of
                     Inl e \<Rightarrow> Inl e
                   | Inr mi \<Rightarrow>
                       if \<not> (1 \<le> d \<and> d \<le> 31) \<or> \<not> (0 \<le> h \<and> h \<le> 23) \<or> \<not> (0 \<le> mi \<and> mi \<le> 59)
                       then Inl ValueError
                       else Inr (PTuple [d, h, mi]))))
      else Inl ValueError)"

definition on_ok :: "task_form \<Rightarrow> datetime \<Rightarrow> BackupTask option" where
  \<comment> \<open>\<open>TaskDialog.on_ok\<close>: the result of the dialog; every exception is logged and leaves
      the result None\<close>
  "on_ok f now =
     (if f_name f = [] \<or> f_source f = [] \<or> f_dest f = [] then None
      else case form_time_params f of
             Inl e \<Rightarrow> None
           | Inr tp \<Rightarrow>
               (case BackupTask_init (f_name f) (f_source f) (f_dest f) (f_compression f)
                       (f_frequency f) tp now of
                  Inl e \<Rightarrow> None
                | Inr task \<Rightarrow> Some task))"

definition edit_task ::
  "BackupTask list \<Rightarrow> nat option \<Rightarrow> task_form option \<Rightarrow> datetime \<Rightarrow> py_error + BackupTask list" where
  \<comment> \<open>\<open>BackupApp.edit_task\<close>: \<open>selected\<close> is the row selected in the list, \<open>pressed\<close> the
      form when OK closes the dialog (None when the dialog is cancelled)\<close>
  "edit_task tasks selected pressed now =
     (case selected of
        None \<Rightarrow> Inr tasks
      | Some index \<Rightarrow>
          if index \<ge> length tasks then Inl IndexError
          else (case pressed of
                  None \<Rightarrow> Inr tasks
                | Some f \<Rightarrow>
                    (case on_ok f now of
                       None \<Rightarrow> Inr tasks
                     | Some result \<Rightarrow> Inr (tasks[index := result]))))"

section \<open>The executor\<close>

text \<open>
  The file system as a backup sees it. \<open>walk\<close> is what \<open>os.walk\<close> yields for the source:
  the directories, each with its path relative to the source and its files; a file comes
  with a flag that tells whether it can be read. \<open>zipf.write\<close> and \<open>shutil.copy2\<close> raise
  PermissionError on a file that cannot be read.
\<close>

record file_system =
  dest_creatable :: bool
  source_is_file :: bool
  source_readable :: bool
  walk :: "(string \<times> (string \<times> bool) list) list"

datatype log_record = LogInfo string | LogError py_error

datatype stdout_line = SkippedLocked string | AddFailed string | CopyFailed string

datatype artifact = NoArtifact | ZipArchive "string list" | MirrorDir "string list"

record app_state =
  running_tasks :: int
  log :: "log_record list"
  printed :: "stdout_line list"

definition join :: "string \<Rightarrow> string \<Rightarrow> string" where
  "join root file = (if root = [] then file else root @ ''/'' @ file)"

definition zip_write :: "string list \<Rightarrow> string \<Rightarrow> bool \<Rightarrow> py_error + string list" where
  \<comment> \<open>\<open>zipf.write(file_path, arcname)\<close> on the entries written so far\<close>
  "zip_write zipf arcname readable =
     (if readable then Inr (zipf @ [arcname]) else Inl PermissionError)"

text \<open>
  The two loops of the compressed branch of \<open>run_task\<close>. They call \<open>zipf.write\<close> with no
  handler around it: the first exception ends both loops. The entries written before it
  stay in the archive, which the \<open>with\<close> block closes.
\<close>

fun write_files :: "string \<Rightarrow> (string \<times> bool) list \<Rightarrow> string list \<Rightarrow> string list \<times> py_error option" where
  "write_files root [] zipf = (zipf, None)"
| "write_files root ((file, readable) # files) zipf =
     (case zip_write zipf (join root file) readable of
        Inl e \<Rightarrow> (zipf, Some e)
      | Inr zipf' \<Rightarrow> write_files root files zipf')"

fun write_walk :: "(string \<times> (string \<times> bool) list) list \<Rightarrow> string list \<Rightarrow> string list \<times> py_error option" where
  "write_walk [] zipf = (zipf, None)"
| "write_walk ((root, files) # dirs) zipf =
     (case write_files root files zipf of
        (zipf', Some e) \<Rightarrow> (zipf', Some e)
      | (zipf', None) \<Rightarrow> write_walk dirs zipf')"

text \<open>
  \<open>add_to_zip\<close>, which \<open>create_zip\<close> calls for each file: the exception of \<open>zipf.write\<close> is
  caught and printed, and the archive goes on with the next file.
\<close>

definition add_to_zip :: "string \<Rightarrow> bool \<Rightarrow> string list \<times> stdout_line list \<Rightarrow> string list \<times> stdout_line list" where
  "add_to_zip arcname readable st =
     (case zip_write (fst st) arcname readable of
        Inr zipf' \<Rightarrow> (zipf', snd st)
      | Inl e \<Rightarrow>
          if e = PermissionError then (fst st, snd st @ [SkippedLocked arcname])
          else (fst st, snd st @ [AddFailed arcname]))"

definition create_zip :: "file_system \<Rightarrow> string \<Rightarrow> string list \<times> stdout_line list" where
  "create_zip fs basename =
     (if source_is_file fs then add_to_zip basename (source_readable fs) ([], [])
      else fold (\<lambda>(root, files) st.
                   fold (\<lambda>(file, readable) st'. add_to_zip (join basename (join root file)) readable st')
                     files st)
             (walk fs) ([], []))"

definition copy_with_errors :: "string \<Rightarrow> bool \<Rightarrow> string list \<times> stdout_line list \<Rightarrow> string list \<times> stdout_line list" where
  "copy_with_errors path readable st =
     (if readable then (fst st @ [path], snd st)
      else (fst st, snd st @ [SkippedLocked path]))"

definition copytree :: "file_system \<Rightarrow> (string list \<times> stdout_line list) + py_error" where
  \<comment> \<open>\<open>shutil.copytree\<close> with \<open>copy_function=self.copy_with_errors\<close>; a source that is
      not a directory raises\<close>
  "copytree fs =
     (if source_is_file fs then Inr OSError
      else Inl (fold (\<lambda>(root, files) st.
                        fold (\<lambda>(file, readable) st'. copy_with_errors (join root file) readable st')
                          files st)
                  (walk fs) ([], [])))"

definition backup_try :: "file_system \<Rightarrow> 'a BackupTask_scheme \<Rightarrow> app_state \<Rightarrow> app_state \<times> artifact \<times> py_error option" where
  \<comment> \<open>the \<open>try\<close> block of \<open>backup\<close>, up to its end or to the exception that leaves it\<close>
  "backup_try fs task s =
     (let s = s\<lparr>log := log s @ [LogInfo ''1'']\<rparr> in
      if \<not> dest_creatable fs then (s, NoArtifact, Some OSError)
      else
        let s = s\<lparr>log := log s @ [LogInfo ''2'']\<rparr> in
        if compression task then
          (let s = s\<lparr>log := log s @ [LogInfo ''3'', LogInfo ''4'']\<rparr> in
           if source_is_file fs then
             (case zip_write [] (source task) (source_readable fs) of
                Inl e \<Rightarrow> (s, ZipArchive [], Some e)
              | Inr zipf \<Rightarrow> (s, ZipArchive zipf, None))
           else
             (case write_walk (walk fs) [] of
                (zipf, e) \<Rightarrow> (s, ZipArchive zipf, e)))
        else
          (let s = s\<lparr>log := log s @ [LogInfo ''5'']\<rparr> in
           case copytree fs of
             Inl (copied, out) \<Rightarrow> (s\<lparr>printed := printed s @ out\<rparr>, MirrorDir copied, None)
           | Inr e \<Rightarrow> (s, NoArtifact, Some e)))"

definition backup :: "file_system \<Rightarrow> 'a BackupTask_scheme \<Rightarrow> app_state \<Rightarrow> app_state \<times> artifact" where
  \<comment> \<open>the function \<open>backup\<close> that \<open>run_task\<close> starts in a thread, run to its end: the
      \<open>try\<close> block, the handler that logs the exception, and the \<open>finally\<close> block\<close>
  "backup fs task s =
     (case backup_try fs task s of
        (s, art, err) \<Rightarrow>
          (let s = (case err of
                      None \<Rightarrow> s\<lparr>log := log s @ [LogInfo ''6'']\<rparr>
                    | Some e \<Rightarrow> s\<lparr>log := log s @ [LogError e]\<rparr>)
           in (s\<lparr>running_tasks := running_tasks s - 1\<rparr>, art)))"

definition run_task :: "'a BackupTask_scheme \<Rightarrow> app_state \<Rightarrow> app_state" where
  \<comment> \<open>what \<open>run_task\<close> does before it returns: it logs the start and starts the thread\<close>
  "run_task task s = s\<lparr>log := log s @ [LogInfo (name task)]\<rparr>"

definition item_errors :: "app_state \<Rightarrow> nat" where
  \<comment> \<open>the files reported as skipped or failed, one by one\<close>
  "item_errors s = length (printed s)"

definition task_errors :: "app_state \<Rightarrow> nat" where
  \<comment> \<open>the errors that the handler of \<open>backup\<close> logged: each ends a backup\<close>
  "task_errors s = length (filter (\<lambda>r. case r of LogError e \<Rightarrow> True | LogInfo m \<Rightarrow> False) (log s))"

section \<open>Properties of the executor\<close>

lemma backup_try_running:
  "running_tasks (fst (backup_try fs task s)) = running_tasks s"
  by (auto simp: backup_try_def Let_def split: sum.splits prod.splits)

text \<open>
  Claim C1 says that \<open>run_task\<close> increments \<open>running_tasks\<close> before the backup starts and
  that the end of the backup decrements it once, so that the counter is the number of
  running backups and never negative. The code has the decrement only: \<open>run_task\<close>
  leaves the counter as it is and the \<open>finally\<close> block of \<open>backup\<close> subtracts one,
  whatever the outcome. A first backup started at 0 ends at -1.
\<close>

theorem run_task_never_increments:
  "running_tasks (run_task task s) = running_tasks s
   \<and> running_tasks (fst (backup fs task (run_task task s))) = running_tasks s - 1"
proof -
  obtain s1 art err where b: "backup_try fs task (run_task task s) = (s1, art, err)"
    by (cases "backup_try fs task (run_task task s)") auto
  then have "running_tasks s1 = running_tasks (run_task task s)"
    using backup_try_running [of fs task "run_task task s"] by simp
  then show ?thesis
    using b by (simp add: run_task_def backup_def split: option.splits)
qed

text \<open>
  Claim C2 says that a compressed backup skips each unreadable file and archives the
  others: one unreadable and two readable files give an archive of the two readable
  files and one item error. In \<open>run_task\<close> the exception of \<open>zipf.write\<close> leaves both loops:
  with the unreadable file first, the archive is empty, no item error is reported and the
  handler of the task logs one error. \<open>create_zip\<close>, which goes through \<open>add_to_zip\<close> and
  is never called, archives the two readable files of the same directory.
\<close>

theorem compressed_backup_stops_at_unreadable_file:
  "backup
     \<lparr>dest_creatable = True, source_is_file = False, source_readable = True,
      walk = [([], [(''a.txt'', False), (''b.txt'', True), (''c.txt'', True)])]\<rparr>
     \<lparr>name = ''n'', source = ''src'', destination = ''d'', compression = True,
      frequency = ''hourly'', time_params = PInt 0, last_run = None, next_run = 0\<rparr>
     \<lparr>running_tasks = 0, log = [], printed = []\<rparr>
   = (\<lparr>running_tasks = - 1,
       log = [LogInfo ''1'', LogInfo ''2'', LogInfo ''3'', LogInfo ''4'',
              LogError PermissionError],
       printed = []\<rparr>, ZipArchive [])
   \<and> create_zip
       \<lparr>dest_creatable = True, source_is_file = False, source_readable = True,
        walk = [([], [(''a.txt'', False), (''b.txt'', True), (''c.txt'', True)])]\<rparr> ''src''
     = ([''src/b.txt'', ''src/c.txt''], [SkippedLocked ''src/a.txt''])"
  by (simp add: backup_def backup_try_def zip_write_def join_def create_zip_def add_to_zip_def)

section \<open>Properties of the status line\<close>

text \<open>
  Claim C4 says that the countdown shows the whole time that remains, also beyond one
  day, and "due now" when the nearest \<open>next_run\<close> is not in the future. The code takes
  the hours from \<open>delta.seconds\<close>, which leaves the days of the timedelta out: a task due
  in 25 hours is announced in 1 hour and 0 minutes.
\<close>

theorem status_countdown_drops_days:
  "next_task_text (update_status 0
      [\<lparr>name = ''n'', source = ''s'', destination = ''d'', compression = True,
        frequency = ''weekly'', time_params = PTuple [0, 1, 0], last_run = None,
        next_run = hours 25\<rparr>] 0) = Countdown 1 0"
  by (simp add: update_status_def nearest_def timedelta_seconds_def hours_def)

section \<open>Arithmetic of the datetime fields\<close>

text \<open>
  \<open>replace\<close> keeps the day (or the hour) of a datetime and sets the fields below it: in
  microseconds, the result is the start of the day (of the hour) plus the new fields.
\<close>

lemma div_chain:
  fixes t :: int
  shows "t div 60000000 = t div 1000000 div 60"
    and "t div 3600000000 = t div 60000000 div 60"
    and "t div 86400000000 = t div 3600000000 div 24"
  using zdiv_zmult2_eq [of 60 t 1000000] zdiv_zmult2_eq [of 60 t 60000000]
    zdiv_zmult2_eq [of 24 t 3600000000]
  by simp_all

lemma floor_bounds:
  fixes t k :: int
  assumes "0 < k"
  shows "t div k * k \<le> t" and "t < t div k * k + k"
proof -
  have "t = t div k * k + t mod k" by simp
  moreover have "0 \<le> t mod k" "t mod k < k" using assms by simp_all
  ultimately show "t div k * k \<le> t" and "t < t div k * k + k" by linarith+
qed

lemma dt_hour_range: "0 \<le> dt_hour t" "dt_hour t \<le> 23"
  unfolding dt_hour_def
  using pos_mod_sign [of 24 "t div 3600000000"] pos_mod_bound [of 24 "t div 3600000000"]
  by simp_all

lemma replace_day_form:
  "combine (toordinal t) h mi s us
     = t div 86400000000 * 86400000000 + h * 3600000000 + mi * 60000000 + s * 1000000 + us"
  by (simp add: combine_def toordinal_def algebra_simps)

lemma replace_hour_form:
  "combine (toordinal t) (dt_hour t) mi s us
     = t div 3600000000 * 3600000000 + mi * 60000000 + s * 1000000 + us"
proof -
  have "t div 3600000000 = t div 86400000000 * 24 + dt_hour t"
    unfolding dt_hour_def div_chain(3) by simp
  then show ?thesis
    by (simp add: combine_def toordinal_def algebra_simps)
qed

lemma minute_fields:
  fixes b m :: int
  assumes "0 \<le> m" "m \<le> 59"
  shows "dt_minute (b * 3600000000 + m * 60000000) = m"
    and "dt_second (b * 3600000000 + m * 60000000) = 0"
    and "dt_microsecond (b * 3600000000 + m * 60000000) = 0"
proof -
  define x where "x = b * 3600000000 + m * 60000000"
  have e1: "x = 1000000 * (b * 3600 + m * 60) + 0" by (simp add: x_def)
  have d1: "x div 1000000 = b * 3600 + m * 60"
    by (rule int_div_pos_eq [OF e1]) simp_all
  have "x mod 1000000 = 0"
    by (rule int_mod_pos_eq [OF e1]) simp_all
  then show "dt_microsecond (b * 3600000000 + m * 60000000) = 0"
    by (simp add: dt_microsecond_def x_def)
  have e2: "b * 3600 + m * 60 = 60 * (b * 60 + m) + 0" by simp
  have "(b * 3600 + m * 60) mod 60 = 0"
    by (rule int_mod_pos_eq [OF e2]) simp_all
  then show "dt_second (b * 3600000000 + m * 60000000) = 0"
    using d1 by (simp add: dt_second_def x_def)
  have e3: "x = 60000000 * (b * 60 + m) + 0" by (simp add: x_def)
  have d3: "x div 60000000 = b * 60 + m"
    by (rule int_div_pos_eq [OF e3]) simp_all
  have e4: "b * 60 + m = 60 * b + m" by simp
  have "(b * 60 + m) mod 60 = m"
    by (rule int_mod_pos_eq [OF e4]) (use assms in simp_all)
  then show "dt_minute (b * 3600000000 + m * 60000000) = m"
    using d3 by (simp add: dt_minute_def x_def)
qed

section \<open>Properties of the next run\<close>

text \<open>
  \<open>calculate_next_run\<close> is its \<open>try\<close> block followed by the handler; it reads the frequency
  and the parameters of the task only; it returns whenever five minutes can be added to
  the reference time; and what it returns for one of the four kinds is after the reference
  time.
\<close>

lemma calculate_next_run_unfold:
  "calculate_next_run self now =
     (case try_block self now
             (case dt_add now (days 1) of
                Inl e \<Rightarrow> Inl e
              | Inr now' \<Rightarrow> calculate_next_run self now') of
        Inr r \<Rightarrow> Inr r
      | Inl e \<Rightarrow> dt_add now (minutes 5))"
  by (subst calculate_next_run.simps) (simp add: try_block_def)

lemma try_block_cong:
  "frequency a = frequency b \<Longrightarrow> time_params a = time_params b
     \<Longrightarrow> try_block a now rec = try_block b now rec"
  by (simp add: try_block_def)

lemma calculate_next_run_cong:
  assumes "frequency a = frequency b" "time_params a = time_params b"
  shows "calculate_next_run a now = calculate_next_run b now"
proof (induction "nat (datetime_limit - now)" arbitrary: now rule: less_induct)
  case less
  have "(case dt_add now (days 1) of Inl e \<Rightarrow> Inl e | Inr now' \<Rightarrow> calculate_next_run a now')
      = (case dt_add now (days 1) of Inl e \<Rightarrow> Inl e | Inr now' \<Rightarrow> calculate_next_run b now')"
  proof (cases "dt_add now (days 1)")
    case (Inl e)
    then show ?thesis by simp
  next
    case (Inr now')
    then have "now' = now + 86400000000" "now' < datetime_limit"
      by (auto simp: dt_add_def days_def split: if_splits)
    then have "nat (datetime_limit - now') < nat (datetime_limit - now)" by simp
    then have "calculate_next_run a now' = calculate_next_run b now'" by (rule less)
    with Inr show ?thesis by simp
  qed
  then show ?case
    by (simp add: calculate_next_run_unfold [of a now] calculate_next_run_unfold [of b now]
        try_block_cong [OF assms])
qed

lemma calculate_next_run_total:
  assumes "0 \<le> now" "now + minutes 5 < datetime_limit"
  shows "\<exists>r. calculate_next_run self now = Inr r"
proof -
  have "dt_add now (minutes 5) = Inr (now + minutes 5)"
    using assms by (simp add: dt_add_def minutes_def)
  then show ?thesis
    by (subst calculate_next_run_unfold) (simp split: sum.split)
qed

lemma try_block_after:
  assumes f: "frequency a \<in> {''hourly'', ''daily'', ''weekly'', ''monthly''}"
    and tb: "try_block a now rec = Inr r"
    and rec: "\<And>r'. rec = Inr r' \<Longrightarrow> now < r'"
  shows "now < r"
proof -
  note hb = floor_bounds [of 3600000000 now, simplified]
  note db = floor_bounds [of 86400000000 now, simplified]
  consider (hourly) "frequency a = ''hourly''" | (daily) "frequency a = ''daily''"
    | (weekly) "frequency a = ''weekly''" | (monthly) "frequency a = ''monthly''"
    using f by auto
  then show ?thesis
  proof cases
    case hourly
    then obtain m where m: "time_params a = PInt m"
      using tb by (auto simp: try_block_def split: time_params.splits)
    with hourly tb have c: "check_time_fields (dt_hour now) m 0 0"
      by (auto simp: try_block_def replace_msu_def replace_hmsu_def split: if_splits)
    define nxt where "nxt = now div 3600000000 * 3600000000 + m * 60000000"
    have "try_block a now rec = (if nxt \<le> now then dt_add nxt (hours 1) else Inr nxt)"
      using hourly m c
      by (simp add: try_block_def replace_msu_def replace_hmsu_def replace_hour_form nxt_def)
    moreover have "0 \<le> m" using c by (simp add: check_time_fields_def)
    ultimately show ?thesis
      using tb hb by (auto simp: dt_add_def hours_def nxt_def split: if_splits)
  next
    case daily
    then obtain h mi where u: "unpack2 (time_params a) = Inr (h, mi)"
      using tb by (auto simp: try_block_def split: sum.splits)
    with daily tb have c: "check_time_fields h mi 0 0"
      by (auto simp: try_block_def replace_hmsu_def split: if_splits)
    define nxt where "nxt = now div 86400000000 * 86400000000 + h * 3600000000 + mi * 60000000"
    have "try_block a now rec = (if nxt \<le> now then dt_add nxt (days 1) else Inr nxt)"
      using daily u c
      by (simp add: try_block_def replace_hmsu_def replace_day_form nxt_def)
    moreover have "0 \<le> h" "0 \<le> mi" using c by (simp_all add: check_time_fields_def)
    ultimately show ?thesis
      using tb db by (auto simp: dt_add_def days_def nxt_def split: if_splits)
  next
    case weekly
    then obtain wd h mi where u: "unpack3 (time_params a) = Inr (wd, h, mi)"
      using tb by (auto simp: try_block_def split: sum.splits)
    with weekly tb have c: "check_time_fields h mi 0 0"
      by (auto simp: try_block_def replace_hmsu_def Let_def split: if_splits)
    define da where "da = (wd - dt_weekday now) mod 7"
    define r0 where "r0 = now div 86400000000 * 86400000000 + h * 3600000000 + mi * 60000000"
    have da: "0 \<le> da" by (simp add: da_def)
    have "try_block a now rec =
        (case dt_add r0 (days da) of Inl e \<Rightarrow> Inl e
         | Inr nxt \<Rightarrow> if nxt \<le> now then dt_add nxt (weeks 1) else Inr nxt)"
      using weekly u c
      by (simp add: try_block_def replace_hmsu_def replace_day_form r0_def da_def)
    moreover have "0 \<le> h" "0 \<le> mi" using c by (simp_all add: check_time_fields_def)
    moreover have "0 \<le> da * 86400000000" using da by simp
    ultimately show ?thesis
      using tb db
      by (auto simp: dt_add_def days_def weeks_def r0_def split: if_splits sum.splits)
  next
    case monthly
    then show ?thesis
      using tb rec
      by (auto simp: try_block_def Let_def split: sum.splits if_splits prod.splits)
  qed
qed

lemma calculate_next_run_after:
  assumes "frequency a \<in> {''hourly'', ''daily'', ''weekly'', ''monthly''}"
    and "calculate_next_run a now = Inr r"
  shows "now < r"
  using assms(2)
proof (induction "nat (datetime_limit - now)" arbitrary: now r rule: less_induct)
  case less
  define rec where "rec = (case dt_add now (days 1) of Inl e \<Rightarrow> Inl e
     | Inr now' \<Rightarrow> calculate_next_run a now')"
  have rec: "now < r'" if "rec = Inr r'" for r'
  proof -
    from that obtain now' where n: "dt_add now (days 1) = Inr now'"
      and c: "calculate_next_run a now' = Inr r'"
      by (auto simp: rec_def split: sum.splits)
    from n have "now' = now + 86400000000" "now' < datetime_limit"
      by (auto simp: dt_add_def days_def split: if_splits)
    then have "nat (datetime_limit - now') < nat (datetime_limit - now)" "now < now'"
      by simp_all
    with less.hyps [OF _ c] show ?thesis by simp
  qed
  show ?case
  proof (cases "try_block a now rec")
    case (Inl e)
    then have "dt_add now (minutes 5) = Inr r"
      using less.prems by (simp add: calculate_next_run_unfold [of a now] rec_def)
    then show ?thesis by (auto simp: dt_add_def minutes_def split: if_splits)
  next
    case (Inr r')
    then have "r' = r"
      using less.prems by (simp add: calculate_next_run_unfold [of a now] rec_def)
    with Inr show ?thesis using try_block_after [OF assms(1) _ rec] by simp
  qed
qed

text \<open>
  Claim C5 says that for every reference time \<open>t\<close> and every recurrence among the four kinds
  the computation of the next run returns, raises nothing, and gives a time strictly after
  \<open>t\<close>. A datetime of Python ends at 9999-12-31T23:59:59.999999: in the last five minutes
  before it the five minutes of the handler raise OverflowError in their turn, and the
  exception leaves the method. For every reference time at least five minutes before the
  end, the claim holds, whatever the parameters are.
\<close>

theorem next_run_total_and_after:
  assumes "frequency task \<in> {''hourly'', ''daily'', ''weekly'', ''monthly''}"
    and "valid_datetime t" and "t + minutes 5 < datetime_limit"
  shows "\<exists>r. calculate_next_run task t = Inr r \<and> t < r"
proof -
  obtain r where r: "calculate_next_run task t = Inr r"
    using calculate_next_run_total [of t task] assms(2,3) by (auto simp: valid_datetime_def)
  then have "t < r" using assms(1) by (rule calculate_next_run_after [rotated])
  with r show ?thesis by simp
qed

theorem next_run_total_and_after_witness:
  "\<exists>r. calculate_next_run
      \<lparr>name = ''n'', source = ''s'', destination = ''d'', compression = True,
       frequency = ''weekly'', time_params = PTuple [2, 9, 0], last_run = None, next_run = 0\<rparr>
      63839700900000000 = Inr r \<and> 63839700900000000 < r"
  by (rule next_run_total_and_after)
    (simp_all add: valid_datetime_def datetime_limit_def minutes_def)

theorem daily_overflow_counterexample:
  "valid_datetime 315537897480000000
   \<and> calculate_next_run
        \<lparr>name = ''n'', source = ''s'', destination = ''d'', compression = True,
         frequency = ''daily'', time_params = PTuple [0, 0], last_run = None, next_run = 0\<rparr>
        315537897480000000 = Inl OverflowError"
  by (subst calculate_next_run.simps)
    (simp add: replace_hmsu_def check_time_fields_def
      toordinal_def combine_def dt_add_def days_def minutes_def datetime_limit_def
      valid_datetime_def)

text \<open>
  Claim C8 says that for every reference time \<open>t\<close> and every minute \<open>m\<close> from 0 to 59 the
  hourly next run is strictly after \<open>t\<close>, within one hour of \<open>t\<close>, at minute \<open>m\<close>, second 0
  and microsecond 0, and that minute 30 at 2024-01-01T10:15:00 gives 2024-01-01T10:30:00.
  In the last hour before the largest datetime the added hour raises OverflowError, and
  the handler gives \<open>t\<close> plus five minutes or raises again. For every reference time at least
  one hour before the end, the claim holds. 2024-01-01T10:15:00 is the microsecond
  63839700900000000 and 2024-01-01T10:30:00 the microsecond 63839701800000000.
\<close>

theorem hourly_next_run:
  assumes "frequency task = ''hourly''" and "time_params task = PInt m"
    and "0 \<le> m" and "m \<le> 59"
    and "valid_datetime t" and "t + hours 1 < datetime_limit"
  shows "(\<exists>r. calculate_next_run task t = Inr r \<and> t < r \<and> r \<le> t + hours 1
            \<and> dt_minute r = m \<and> dt_second r = 0 \<and> dt_microsecond r = 0)
    \<and> calculate_next_run
        \<lparr>name = ''n'', source = ''s'', destination = ''d'', compression = True,
         frequency = ''hourly'', time_params = PInt 30, last_run = None, next_run = 0\<rparr>
        63839700900000000 = Inr 63839701800000000"
proof
  note hb = floor_bounds [of 3600000000 t, simplified]
  define b where "b = t div 3600000000"
  define nxt where "nxt = b * 3600000000 + m * 60000000"
  define rec where "rec = (case dt_add t (days 1) of Inl e \<Rightarrow> Inl e
     | Inr now' \<Rightarrow> calculate_next_run task now')"
  have c: "check_time_fields (dt_hour t) m 0 0"
    using assms(3,4) dt_hour_range [of t] by (simp add: check_time_fields_def)
  have tb: "try_block task t rec = (if nxt \<le> t then dt_add nxt (hours 1) else Inr nxt)"
    using assms(1,2) c
    by (simp add: try_block_def replace_msu_def replace_hmsu_def replace_hour_form nxt_def b_def)
  have t0: "0 \<le> t" using assms(5) by (simp add: valid_datetime_def)
  have b0: "0 \<le> b" using t0 by (simp add: b_def pos_imp_zdiv_nonneg_iff)
  show "\<exists>r. calculate_next_run task t = Inr r \<and> t < r \<and> r \<le> t + hours 1
            \<and> dt_minute r = m \<and> dt_second r = 0 \<and> dt_microsecond r = 0"
  proof (cases "nxt \<le> t")
    case True
    have "0 \<le> nxt + hours 1" using b0 assms(3) by (simp add: nxt_def hours_def)
    moreover have "nxt + hours 1 < datetime_limit" using True assms(6) by simp
    ultimately have "dt_add nxt (hours 1) = Inr (nxt + hours 1)" by (simp add: dt_add_def)
    with tb True have "calculate_next_run task t = Inr (nxt + hours 1)"
      by (simp add: calculate_next_run_unfold [of task t] rec_def)
    moreover have "nxt + hours 1 = (b + 1) * 3600000000 + m * 60000000"
      by (simp add: nxt_def hours_def algebra_simps)
    moreover have "t < nxt + hours 1"
      using hb assms(3) by (simp add: nxt_def hours_def b_def)
    ultimately show ?thesis
      using True minute_fields [of m "b + 1"] assms(3,4) by simp
  next
    case False
    with tb have "calculate_next_run task t = Inr nxt"
      by (simp add: calculate_next_run_unfold [of task t] rec_def)
    moreover have "nxt \<le> t + hours 1"
      using hb assms(4) by (simp add: nxt_def hours_def b_def)
    ultimately show ?thesis
      using False minute_fields [of m b] assms(3,4) by (simp add: nxt_def)
  qed
next
  show "calculate_next_run
        \<lparr>name = ''n'', source = ''s'', destination = ''d'', compression = True,
         frequency = ''hourly'', time_params = PInt 30, last_run = None, next_run = 0\<rparr>
        63839700900000000 = Inr 63839701800000000"
    by (subst calculate_next_run.simps)
      (simp add: replace_msu_def replace_hmsu_def check_time_fields_def dt_hour_def
        toordinal_def combine_def)
qed

theorem hourly_next_run_witness:
  "\<exists>r. calculate_next_run
        \<lparr>name = ''n'', source = ''s'', destination = ''d'', compression = True,
         frequency = ''hourly'', time_params = PInt 30, last_run = None, next_run = 0\<rparr>
        63839700900000000 = Inr r \<and> 63839700900000000 < r \<and> r \<le> 63839700900000000 + hours 1
            \<and> dt_minute r = 30 \<and> dt_second r = 0 \<and> dt_microsecond r = 0"
  using hourly_next_run [of "\<lparr>name = ''n'', source = ''s'', destination = ''d'',
         compression = True, frequency = ''hourly'', time_params = PInt 30, last_run = None,
         next_run = 0\<rparr>" 30 63839700900000000]
  by (simp add: valid_datetime_def datetime_limit_def hours_def dt_minute_def dt_second_def
      dt_microsecond_def)

theorem hourly_overflow_counterexample:
  "valid_datetime 315537897480000000
   \<and> calculate_next_run
        \<lparr>name = ''n'', source = ''s'', destination = ''d'', compression = True,
         frequency = ''hourly'', time_params = PInt 15, last_run = None, next_run = 0\<rparr>
        315537897480000000 = Inl OverflowError"
  by (subst calculate_next_run.simps)
    (simp add: replace_msu_def replace_hmsu_def check_time_fields_def dt_hour_def
      toordinal_def combine_def dt_add_def hours_def minutes_def datetime_limit_def
      valid_datetime_def)

lemma calculate_next_run_unknown:
  assumes "frequency task \<noteq> ''hourly''" "frequency task \<noteq> ''daily''"
    "frequency task \<noteq> ''weekly''" "frequency task \<noteq> ''monthly''"
  shows "calculate_next_run task t = Inr t"
  using assms by (subst calculate_next_run.simps) simp

text \<open>
  Claim C9: a task whose frequency is none of the four known kinds gets the reference
  time itself as its next run, so that the scheduler, which takes \<open>next_run \<le> now\<close> as
  due, finds it due again at every later tick: after a claim whose clock reading is
  \<open>now'\<close>, the task is due at every tick from \<open>now'\<close> on.
\<close>

theorem unknown_frequency_always_due:
  assumes "frequency task \<notin> {''hourly'', ''daily'', ''weekly'', ''monthly''}"
    and "now' \<le> tick"
  shows "calculate_next_run task t = Inr t
    \<and> (\<exists>task'. claim task now now' = Inr task' \<and> next_run task' = now' \<and> is_due task' tick)"
proof -
  have f: "frequency (task\<lparr>last_run := Some now\<rparr>) \<noteq> ''hourly''"
    "frequency (task\<lparr>last_run := Some now\<rparr>) \<noteq> ''daily''"
    "frequency (task\<lparr>last_run := Some now\<rparr>) \<noteq> ''weekly''"
    "frequency (task\<lparr>last_run := Some now\<rparr>) \<noteq> ''monthly''"
    using assms(1) by auto
  have "calculate_next_run task t = Inr t"
    using assms(1) by (intro calculate_next_run_unknown) auto
  moreover have "calculate_next_run (task\<lparr>last_run := Some now\<rparr>) now' = Inr now'"
    by (rule calculate_next_run_unknown [OF f])
  ultimately show ?thesis
    using assms(2) by (simp add: claim_def is_due_def)
qed

theorem unknown_frequency_always_due_witness:
  "calculate_next_run \<lparr>name = ''n'', source = ''s'', destination = ''d'', compression = True,
       frequency = ''yearly'', time_params = PInt 0, last_run = None, next_run = 0\<rparr> 100 = Inr 100
   \<and> (\<exists>task'. claim \<lparr>name = ''n'', source = ''s'', destination = ''d'', compression = True,
       frequency = ''yearly'', time_params = PInt 0, last_run = None, next_run = 0\<rparr> 5 5 = Inr task'
       \<and> next_run task' = 5 \<and> is_due task' 5)"
  using unknown_frequency_always_due [of "\<lparr>name = ''n'', source = ''s'', destination = ''d'',
       compression = True, frequency = ''yearly'', time_params = PInt 0, last_run = None,
       next_run = 0\<rparr>" 5 5 100 5]
  by simp

text \<open>
  Claim C3 says that for every task and every time \<open>now\<close> at which it is due, the claim of
  the scheduler (\<open>last_run = now\<close>, \<open>next_run\<close> computed again) leaves the task not due at the
  same \<open>now\<close>. For a task whose frequency is none of the four kinds, the new \<open>next_run\<close> is the
  clock reading itself, and the task is due again. For the four kinds, with the clock
  (read again by \<open>calculate_next_run()\<close>, so not before \<open>now\<close>) at least five minutes before
  the largest datetime, the claim holds.
\<close>

theorem claim_not_due_again:
  assumes "frequency task \<in> {''hourly'', ''daily'', ''weekly'', ''monthly''}"
    and "is_due task now" and "now \<le> now'"
    and "valid_datetime now'" and "now' + minutes 5 < datetime_limit"
  shows "\<exists>task'. claim task now now' = Inr task' \<and> last_run task' = Some now
     \<and> now' < next_run task' \<and> \<not> is_due task' now"
proof -
  define task1 where "task1 = task\<lparr>last_run := Some now\<rparr>"
  have f: "frequency task1 \<in> {''hourly'', ''daily'', ''weekly'', ''monthly''}"
    using assms(1) by (simp add: task1_def)
  obtain r where r: "calculate_next_run task1 now' = Inr r"
    using calculate_next_run_total [of now' task1] assms(4,5) by (auto simp: valid_datetime_def)
  have "now' < r" using f r by (rule calculate_next_run_after)
  then show ?thesis
    using r assms(3) by (simp add: claim_def task1_def [symmetric] is_due_def) (simp add: task1_def)
qed

theorem claim_not_due_again_witness:
  "\<exists>task'. claim
      \<lparr>name = ''n'', source = ''s'', destination = ''d'', compression = True,
       frequency = ''hourly'', time_params = PInt 30, last_run = None, next_run = 0\<rparr>
      63839700900000000 63839700900000000 = Inr task'
     \<and> last_run task' = Some 63839700900000000
     \<and> 63839700900000000 < next_run task' \<and> \<not> is_due task' 63839700900000000"
  by (rule claim_not_due_again)
    (simp_all add: is_due_def valid_datetime_def datetime_limit_def minutes_def)

theorem claim_unknown_frequency_counterexample:
  "is_due \<lparr>name = ''n'', source = ''s'', destination = ''d'', compression = True,
       frequency = ''yearly'', time_params = PInt 0, last_run = None, next_run = 0\<rparr> 5
   \<and> claim \<lparr>name = ''n'', source = ''s'', destination = ''d'', compression = True,
       frequency = ''yearly'', time_params = PInt 0, last_run = None, next_run = 0\<rparr> 5 5
     = Inr \<lparr>name = ''n'', source = ''s'', destination = ''d'', compression = True,
       frequency = ''yearly'', time_params = PInt 0, last_run = Some 5, next_run = 5\<rparr>
   \<and> is_due \<lparr>name = ''n'', source = ''s'', destination = ''d'', compression = True,
       frequency = ''yearly'', time_params = PInt 0, last_run = Some 5, next_run = 5\<rparr> 5"
proof -
  have "calculate_next_run \<lparr>name = ''n'', source = ''s'', destination = ''d'',
       compression = True, frequency = ''yearly'', time_params = PInt 0, last_run = Some 5,
       next_run = 0\<rparr> 5 = Inr 5"
    by (subst calculate_next_run.simps) simp
  then show ?thesis by (simp add: claim_def is_due_def)
qed

section \<open>Properties of the calendar\<close>

text \<open>
  The year, month and day that \<open>ord2ymd\<close> gives for a day ordinal are a date of the
  calendar whose ordinal is the one given; the year of a datetime is from 1 to 9999; and
  the first day of the next month comes right after the last day of the month.
\<close>

lemma div_step:
  fixes a k :: int
  assumes "0 < k"
  shows "(a + 1) div k = a div k + (if (a + 1) mod k = 0 then 1 else 0)"
proof -
  define q where "q = a div k"
  define r where "r = a mod k"
  have a: "a = k * q + r" and r: "0 \<le> r" "r < k"
    using assms by (simp_all add: q_def r_def)
  show ?thesis
  proof (cases "r = k - 1")
    case True
    then have e: "a + 1 = k * (q + 1) + 0" using a by (simp add: algebra_simps)
    have "(a + 1) div k = q + 1"
      by (rule int_div_pos_eq [OF e]) (use assms in auto)
    moreover have "(a + 1) mod k = 0"
      by (rule int_mod_pos_eq [OF e]) (use assms in auto)
    ultimately show ?thesis by (simp add: q_def)
  next
    case False
    then have r1: "0 \<le> r + 1" "r + 1 < k" using r by auto
    have e: "a + 1 = k * q + (r + 1)" using a by simp
    have "(a + 1) div k = q"
      by (rule int_div_pos_eq [OF e r1])
    moreover have "(a + 1) mod k = r + 1"
      by (rule int_mod_pos_eq [OF e r1])
    ultimately show ?thesis using r by (simp add: q_def)
  qed
qed

lemma mod_rel:
  fixes y :: int
  shows "y mod 100 = 0 \<Longrightarrow> y mod 4 = 0" and "y mod 400 = 0 \<Longrightarrow> y mod 100 = 0"
  using mod_mod_cancel [of 4 100 y] mod_mod_cancel [of 100 400 y] by simp_all

lemma days_before_year_Suc:
  "days_before_year (y + 1) = days_before_year y + (if is_leap y then 366 else 365)"
proof -
  have s: "y div 4 = (y - 1) div 4 + (if y mod 4 = 0 then 1 else 0)"
    "y div 100 = (y - 1) div 100 + (if y mod 100 = 0 then 1 else 0)"
    "y div 400 = (y - 1) div 400 + (if y mod 400 = 0 then 1 else 0)"
    using div_step [of 4 "y - 1"] div_step [of 100 "y - 1"] div_step [of 400 "y - 1"]
    by simp_all
  have e: "days_before_year (y + 1) = days_before_year y + 365 + (y div 4 - (y - 1) div 4)
      - (y div 100 - (y - 1) div 100) + (y div 400 - (y - 1) div 400)"
    unfolding days_before_year_def by (simp add: left_diff_distrib)
  show ?thesis
  proof (cases "y mod 4 = 0")
    case False
    then have "y mod 100 \<noteq> 0" "y mod 400 \<noteq> 0" using mod_rel [of y] by auto
    with False show ?thesis unfolding e is_leap_def by (simp add: s)
  next
    case m4: True
    show ?thesis
    proof (cases "y mod 100 = 0")
      case False
      then have "y mod 400 \<noteq> 0" using mod_rel [of y] by auto
      with m4 False show ?thesis unfolding e is_leap_def by (simp add: s)
    next
      case m100: True
      show ?thesis
      proof (cases "y mod 400 = 0")
        case False
        with m4 m100 show ?thesis unfolding e is_leap_def by (simp add: s)
      next
        case True
        with m4 m100 show ?thesis unfolding e is_leap_def by (simp add: s)
      qed
    qed
  qed
qed

lemma days_before_year_mono:
  assumes "y \<le> z"
  shows "days_before_year y \<le> days_before_year z"
proof -
  have "days_before_year y \<le> days_before_year (y + int k)" for k
  proof (induction k)
    case 0
    show ?case by simp
  next
    case (Suc k)
    have "y + int (Suc k) = (y + int k) + 1" by simp
    then have "days_before_year (y + int (Suc k)) = days_before_year ((y + int k) + 1)"
      by (simp only:)
    also have "\<dots> = days_before_year (y + int k) + (if is_leap (y + int k) then 366 else 365)"
      by (rule days_before_year_Suc)
    finally have e: "days_before_year (y + int (Suc k))
        = days_before_year (y + int k) + (if is_leap (y + int k) then 366 else 365)" .
    show ?case unfolding e using Suc by simp
  qed
  from this [of "nat (z - y)"] show ?thesis using assms by simp
qed

lemma month_estimate:
  fixes n :: int
  assumes "32 * j - 50 \<le> n" "n \<le> 32 * j - 19"
  shows "(n + 50) div 32 = j"
  by (rule int_div_pos_eq [of _ _ _ "n + 50 - 32 * j"]) (use assms in auto)

lemma month_day_correct:
  assumes "0 \<le> n" "n \<le> 364"
  shows "1 \<le> fst (month_day leap n) \<and> fst (month_day leap n) \<le> 12
     \<and> 1 \<le> snd (month_day leap n)
     \<and> snd (month_day leap n) \<le> mdays (fst (month_day leap n))
           + (if fst (month_day leap n) = 2 \<and> leap then 1 else 0)
     \<and> days_before_month_common (fst (month_day leap n))
         + (if fst (month_day leap n) > 2 \<and> leap then 1 else 0) + snd (month_day leap n) = n + 1"
proof -
  consider "n \<le> 13" | "14 \<le> n \<and> n \<le> 45" | "46 \<le> n \<and> n \<le> 77" | "78 \<le> n \<and> n \<le> 109"
    | "110 \<le> n \<and> n \<le> 141" | "142 \<le> n \<and> n \<le> 173" | "174 \<le> n \<and> n \<le> 205"
    | "206 \<le> n \<and> n \<le> 237" | "238 \<le> n \<and> n \<le> 269" | "270 \<le> n \<and> n \<le> 301"
    | "302 \<le> n \<and> n \<le> 333" | "334 \<le> n"
    by linarith
  then show ?thesis
  proof cases
    case 1
    then have "(n + 50) div 32 = 1" using assms by (intro month_estimate) auto
    then show ?thesis using 1 assms
      by (simp add: month_day_def days_before_month_common_def mdays_def)
  next
    case 2
    then have "(n + 50) div 32 = 2" by (intro month_estimate) auto
    then show ?thesis using 2
      by (simp add: month_day_def days_before_month_common_def mdays_def)
  next
    case 3
    then have "(n + 50) div 32 = 3" by (intro month_estimate) auto
    then show ?thesis using 3
      by (simp add: month_day_def days_before_month_common_def mdays_def)
  next
    case 4
    then have "(n + 50) div 32 = 4" by (intro month_estimate) auto
    then show ?thesis using 4
      by (simp add: month_day_def days_before_month_common_def mdays_def)
  next
    case 5
    then have "(n + 50) div 32 = 5" by (intro month_estimate) auto
    then show ?thesis using 5
      by (simp add: month_day_def days_before_month_common_def mdays_def)
  next
    case 6
    then have "(n + 50) div 32 = 6" by (intro month_estimate) auto
    then show ?thesis using 6
      by (simp add: month_day_def days_before_month_common_def mdays_def)
  next
    case 7
    then have "(n + 50) div 32 = 7" by (intro month_estimate) auto
    then show ?thesis using 7
      by (simp add: month_day_def days_before_month_common_def mdays_def)
  next
    case 8
    then have "(n + 50) div 32 = 8" by (intro month_estimate) auto
    then show ?thesis using 8
      by (simp add: month_day_def days_before_month_common_def mdays_def)
  next
    case 9
    then have "(n + 50) div 32 = 9" by (intro month_estimate) auto
    then show ?thesis using 9
      by (simp add: month_day_def days_before_month_common_def mdays_def)
  next
    case 10
    then have "(n + 50) div 32 = 10" by (intro month_estimate) auto
    then show ?thesis using 10
      by (simp add: month_day_def days_before_month_common_def mdays_def)
  next
    case 11
    then have "(n + 50) div 32 = 11" by (intro month_estimate) auto
    then show ?thesis using 11
      by (simp add: month_day_def days_before_month_common_def mdays_def)
  next
    case 12
    then have "(n + 50) div 32 = 12" using assms by (intro month_estimate) auto
    then show ?thesis using 12 assms
      by (simp add: month_day_def days_before_month_common_def mdays_def)
  qed
qed

lemma cycle_days:
  fixes k a b c :: int
  assumes "0 \<le> a" "a \<le> 3" "0 \<le> b" "b \<le> 24" "0 \<le> c" "c \<le> 3"
  shows "days_before_year (400 * k + 100 * a + 4 * b + c + 1)
           = 146097 * k + 36524 * a + 1461 * b + 365 * c"
proof -
  define q where "q = 400 * k + 100 * a + 4 * b + c"
  have d4: "q div 4 = 100 * k + 25 * a + b"
    by (rule int_div_pos_eq [of _ _ _ c]) (use assms in \<open>auto simp: q_def\<close>)
  have d100: "q div 100 = 4 * k + a"
    by (rule int_div_pos_eq [of _ _ _ "4 * b + c"]) (use assms in \<open>auto simp: q_def\<close>)
  have d400: "q div 400 = k"
    by (rule int_div_pos_eq [of _ _ _ "100 * a + 4 * b + c"]) (use assms in \<open>auto simp: q_def\<close>)
  show ?thesis
    unfolding days_before_year_def using d4 d100 d400 by (simp add: q_def)
qed

lemma mod_zero_iff:
  fixes r p q :: int
  assumes "1 \<le> r" "r \<le> p"
  shows "(p * q + r) mod p = 0 \<longleftrightarrow> r = p"
proof (cases "r = p")
  case True
  then show ?thesis by simp
next
  case False
  then have "(p * q + r) mod p = r"
    by (intro int_mod_pos_eq [of _ _ q]) (use assms in auto)
  then show ?thesis using assms False by simp
qed

lemma cycle_leap:
  fixes k a b c :: int
  assumes "0 \<le> a" "a \<le> 3" "0 \<le> b" "b \<le> 24" "0 \<le> c" "c \<le> 3"
  shows "is_leap (400 * k + 100 * a + 4 * b + c + 1) \<longleftrightarrow> c = 3 \<and> (b \<noteq> 24 \<or> a = 3)"
proof -
  define y where "y = 400 * k + 100 * a + 4 * b + c + 1"
  have "y = 4 * (100 * k + 25 * a + b) + (c + 1)" by (simp add: y_def)
  then have m4: "y mod 4 = 0 \<longleftrightarrow> c + 1 = 4"
    using mod_zero_iff [of "c + 1" 4 "100 * k + 25 * a + b"] assms by simp
  have "y = 100 * (4 * k + a) + (4 * b + c + 1)" by (simp add: y_def)
  then have m100: "y mod 100 = 0 \<longleftrightarrow> 4 * b + c + 1 = 100"
    using mod_zero_iff [of "4 * b + c + 1" 100 "4 * k + a"] assms by simp
  have "y = 400 * k + (100 * a + 4 * b + c + 1)" by (simp add: y_def)
  then have m400: "y mod 400 = 0 \<longleftrightarrow> 100 * a + 4 * b + c + 1 = 400"
    using mod_zero_iff [of "100 * a + 4 * b + c + 1" 400 k] assms by simp
  show ?thesis
    unfolding is_leap_def y_def [symmetric] m4 m100 m400 using assms by auto
qed

lemma december_31:
  assumes "is_leap y"
  shows "ymd2ord y 12 31 = days_before_year y + 366" "days_in_month y 12 = 31"
  using assms
  by (simp_all add: ymd2ord_def days_before_month_def days_before_month_common_def
      days_in_month_def mdays_def)

lemma ord2ymd_correct:
  assumes "1 \<le> n0"
  obtains y m d where "ord2ymd n0 = (y, m, d)" "1 \<le> y" "1 \<le> m" "m \<le> 12"
    "1 \<le> d" "d \<le> days_in_month y m" "ymd2ord y m d = n0"
proof -
  define N where "N = n0 - 1"
  define k where "k = N div 146097"
  define r400 where "r400 = N mod 146097"
  define a where "a = r400 div 36524"
  define r100 where "r100 = r400 mod 36524"
  define b where "b = r100 div 1461"
  define r4 where "r4 = r100 mod 1461"
  define c where "c = r4 div 365"
  define r1 where "r1 = r4 mod 365"
  define Y where "Y = k * 400 + 1 + a * 100 + b * 4 + c"
  have N: "N = 146097 * k + r400" and r400: "0 \<le> r400" "r400 < 146097"
    by (simp_all add: k_def r400_def)
  have e400: "r400 = 36524 * a + r100" and r100: "0 \<le> r100" "r100 < 36524"
    by (simp_all add: a_def r100_def)
  have e100: "r100 = 1461 * b + r4" and r4: "0 \<le> r4" "r4 < 1461"
    by (simp_all add: b_def r4_def)
  have e4: "r4 = 365 * c + r1" and r1: "0 \<le> r1" "r1 < 365"
    by (simp_all add: c_def r1_def)
  have n0: "n0 = N + 1" by (simp add: N_def)
  have k0: "0 \<le> k" using assms by (simp add: k_def N_def pos_imp_zdiv_nonneg_iff)
  have a0: "0 \<le> a" "a \<le> 4" using e400 r400 r100 by linarith+
  have b0: "0 \<le> b" "b \<le> 24" using e100 r100 r4 by linarith+
  have c0: "0 \<le> c" "c \<le> 4" using e4 r4 r1 by linarith+
  have Y: "Y = 400 * k + 100 * a + 4 * b + c + 1" by (simp add: Y_def)
  have o: "ord2ymd n0 = (if c = 4 \<or> a = 4 then (Y - 1, 12, 31)
        else (Y, month_day (c = 3 \<and> (b \<noteq> 24 \<or> a = 3)) r1))"
    by (simp add: ord2ymd_def Let_def Y_def N_def k_def r400_def a_def r100_def b_def r4_def
        c_def r1_def)
  show ?thesis
  proof (cases "a = 4")
    case True
    then have "r100 = 0" using e400 r400 r100 by linarith
    then have b: "b = 0" and "r4 = 0" using e100 b0 r4 by linarith+
    then have c: "c = 0" and "r1 = 0" using e4 c0 r1 by linarith+
    have y1: "Y - 1 = 400 * k + 100 * 3 + 4 * 24 + 3 + 1" using True b c Y by simp
    have leap: "is_leap (Y - 1)" unfolding y1 using cycle_leap [of 3 24 3 k] by simp
    have "days_before_year (Y - 1) = 146097 * k + 36524 * 3 + 1461 * 24 + 365 * 3"
      unfolding y1 by (rule cycle_days) simp_all
    moreover have "n0 = 146097 * k + 146097"
      using n0 N e400 True \<open>r100 = 0\<close> by simp
    ultimately have "ymd2ord (Y - 1) 12 31 = n0"
      using december_31 (1) [OF leap] by simp
    moreover have "ord2ymd n0 = (Y - 1, 12, 31)" using o True by simp
    moreover have "1 \<le> Y - 1" using y1 k0 by simp
    ultimately show ?thesis
      using december_31 (2) [OF leap] by (intro that [of "Y - 1" 12 31]) simp_all
  next
    case False
    then have a3: "a \<le> 3" using a0 by simp
    show ?thesis
    proof (cases "c = 4")
      case True
      then have "r1 = 0" and r4e: "r4 = 1460" using e4 r4 r1 by linarith+
      then have b23: "b \<noteq> 24" using e100 r100 by linarith
      have y1: "Y - 1 = 400 * k + 100 * a + 4 * b + 3 + 1" using True Y by simp
      have leap: "is_leap (Y - 1)"
        unfolding y1 using cycle_leap [of a b 3 k] a0 a3 b0 b23 by simp
      have "days_before_year (Y - 1) = 146097 * k + 36524 * a + 1461 * b + 365 * 3"
        unfolding y1 by (rule cycle_days) (use a0 a3 b0 in simp_all)
      moreover have "n0 = 146097 * k + 36524 * a + 1461 * b + 1461"
        using n0 N e400 e100 r4e by simp
      ultimately have "ymd2ord (Y - 1) 12 31 = n0"
        using december_31 (1) [OF leap] by simp
      moreover have "ord2ymd n0 = (Y - 1, 12, 31)" using o True by simp
      moreover have "1 \<le> Y - 1" using y1 k0 a0 b0 by simp
      ultimately show ?thesis
        using december_31 (2) [OF leap] by (intro that [of "Y - 1" 12 31]) simp_all
    next
      case c4: False
      then have c3: "c \<le> 3" using c0 by simp
      define L where "L \<longleftrightarrow> c = 3 \<and> (b \<noteq> 24 \<or> a = 3)"
      define m where "m = fst (month_day L r1)"
      define d where "d = snd (month_day L r1)"
      have leap: "is_leap Y \<longleftrightarrow> L"
        unfolding Y L_def by (rule cycle_leap) (use a0 a3 b0 c0 c3 in simp_all)
      have dby: "days_before_year Y = 146097 * k + 36524 * a + 1461 * b + 365 * c"
        unfolding Y by (rule cycle_days) (use a0 a3 b0 c0 c3 in simp_all)
      have md: "1 \<le> m" "m \<le> 12" "1 \<le> d"
        "d \<le> mdays m + (if m = 2 \<and> L then 1 else 0)"
        "days_before_month_common m + (if m > 2 \<and> L then 1 else 0) + d = r1 + 1"
        using month_day_correct [of r1 L] r1 by (simp_all add: m_def d_def)
      have "ord2ymd n0 = (Y, m, d)"
        using o False c4 by (simp add: m_def d_def L_def)
      moreover have "1 \<le> Y" using Y k0 a0 b0 c0 by simp
      moreover have "d \<le> days_in_month Y m"
        using md(4) leap by (simp add: days_in_month_def mdays_def split: if_splits)
      moreover have "n0 = 146097 * k + 36524 * a + 1461 * b + 365 * c + r1 + 1"
        using n0 N e400 e100 e4 by simp
      then have "ymd2ord Y m d = n0"
        using md(5) leap dby by (simp add: ymd2ord_def days_before_month_def)
      ultimately show ?thesis
        using md(1-3) by (intro that [of Y m d]) simp_all
    qed
  qed
qed

lemma year_range:
  assumes "1 \<le> n" and "n \<le> 3652059" and "ord2ymd n = (y, m, d)"
  shows "1 \<le> y" "y \<le> 9999" "1 \<le> m" "m \<le> 12" "1 \<le> d" "d \<le> days_in_month y m"
    "ymd2ord y m d = n"
proof -
  from assms(1) obtain y' m' d' where c: "ord2ymd n = (y', m', d')" "1 \<le> y'" "1 \<le> m'"
    "m' \<le> 12" "1 \<le> d'" "d' \<le> days_in_month y' m'" "ymd2ord y' m' d' = n"
    by (rule ord2ymd_correct)
  with assms(3) have e: "y' = y" "m' = m" "d' = d" by simp_all
  show "1 \<le> y" "1 \<le> m" "m \<le> 12" "1 \<le> d" "d \<le> days_in_month y m" "ymd2ord y m d = n"
    using c e by simp_all
  have "0 \<le> days_before_month y m"
    by (simp add: days_before_month_def days_before_month_common_def)
  then have "days_before_year y < n"
    using c(5,7) e by (simp add: ymd2ord_def)
  moreover have "days_before_year 10000 = 3652059" by (simp add: days_before_year_def)
  ultimately have "\<not> 10000 \<le> y"
    using days_before_year_mono [of 10000 y] assms(2) by auto
  then show "y \<le> 9999" by simp
qed

lemma next_month_first:
  assumes "1 \<le> m" "m \<le> 12"
  shows "ymd2ord (if m + 1 > 12 then y + 1 else y) (if m + 1 > 12 then 1 else m + 1) 1
     = ymd2ord y m 1 + days_in_month y m"
proof -
  have "m = 1 \<or> m = 2 \<or> m = 3 \<or> m = 4 \<or> m = 5 \<or> m = 6 \<or> m = 7 \<or> m = 8
    \<or> m = 9 \<or> m = 10 \<or> m = 11 \<or> m = 12"
    using assms by presburger
  then show ?thesis
    by (elim disjE)
      (simp_all add: ymd2ord_def days_before_month_def days_before_month_common_def
        days_in_month_def mdays_def days_before_year_Suc)
qed

lemma days_in_month_range: "28 \<le> days_in_month y m" "days_in_month y m \<le> 31"
  by (simp_all add: days_in_month_def mdays_def)

lemma combine_lower:
  assumes "0 \<le> h" "0 \<le> mi"
  shows "(ord - 1) * 86400000000 \<le> combine ord h mi 0 0"
  using assms by (simp add: combine_def algebra_simps)

lemma toordinal_range:
  assumes "valid_datetime t"
  shows "1 \<le> toordinal t" "toordinal t \<le> 3652059" "t < toordinal t * 86400000000"
proof -
  note fb = floor_bounds [of 86400000000 t, simplified]
  have t: "0 \<le> t" "t < 3652059 * 86400000000"
    using assms by (simp_all add: valid_datetime_def datetime_limit_def)
  show "1 \<le> toordinal t"
    using t(1) by (simp add: toordinal_def pos_imp_zdiv_nonneg_iff)
  show "toordinal t \<le> 3652059"
    using t(2) fb(1) by (simp add: toordinal_def)
  show "t < toordinal t * 86400000000"
    using fb(2) by (simp add: toordinal_def algebra_simps)
qed

text \<open>
  Claim C6 says that for every monthly recurrence with a day from 1 to 31 and every
  reference time the next run is a date of the calendar, with a day beyond the length of
  the target month replaced by the last day of that month, that the computation never
  fails, and that (31, 0, 0) at 2024-01-20 gives 2024-02-29T00:00:00. In December 9999
  the target month is January 10000, which \<open>datetime\<close> refuses twice: the handler gives the
  reference time plus five minutes, neither the day nor the time that was asked. For every
  reference time before December 9999, and an hour and a minute in their ranges, the next
  run is what \<open>datetime\<close> constructs for the month after the one of the reference time,
  with the smaller of the day asked and of the length of that month, and it is after the
  reference time. 2024-01-20T00:00:00 is the microsecond 63841305600000000 and
  2024-02-29T00:00:00 the microsecond 63844761600000000.
\<close>

theorem monthly_next_run:
  assumes "frequency task = ''monthly''" and "unpack3 (time_params task) = Inr (d, h, mi)"
    and "1 \<le> d" and "d \<le> 31" and "0 \<le> h" and "h \<le> 23" and "0 \<le> mi" and "mi \<le> 59"
    and "valid_datetime t" and "\<not> (dt_year t = 9999 \<and> dt_month t = 12)"
  shows "(let next_month = (if dt_month t + 1 > 12 then 1 else dt_month t + 1);
              next_year = (if dt_month t + 1 > 12 then dt_year t + 1 else dt_year t);
              day = min d (days_in_month next_year next_month)
          in calculate_next_run task t = mk_datetime next_year next_month day h mi
             \<and> (\<exists>r. mk_datetime next_year next_month day h mi = Inr r \<and> t < r))
   \<and> calculate_next_run
        \<lparr>name = ''n'', source = ''s'', destination = ''d'', compression = True,
         frequency = ''monthly'', time_params = PTuple [31, 0, 0], last_run = None,
         next_run = 0\<rparr> 63841305600000000 = Inr 63844761600000000
   \<and> ord2ymd (toordinal 63841305600000000) = (2024, 1, 20)
   \<and> ord2ymd (toordinal 63844761600000000) = (2024, 2, 29)"
proof (intro conjI)
  define n where "n = toordinal t"
  define y where "y = dt_year t"
  define m where "m = dt_month t"
  define nm where "nm = (if m + 1 > 12 then 1 else m + 1)"
  define ny where "ny = (if m + 1 > 12 then y + 1 else y)"
  define dim where "dim = days_in_month ny nm"
  define day where "day = min d dim"
  define r where "r = combine (ymd2ord ny nm day) h mi 0 0"
  define rec where "rec = (case dt_add t (days 1) of Inl e \<Rightarrow> Inl e
     | Inr now' \<Rightarrow> calculate_next_run task now')"
  note tr = toordinal_range [OF assms(9)]
  have "ord2ymd n = (y, m, snd (snd (ord2ymd n)))"
    by (simp add: y_def m_def n_def dt_year_def dt_month_def)
  note yr = year_range [OF tr(1,2) this [unfolded n_def]]
  have y9: "\<not> (y = 9999 \<and> m = 12)" using assms(10) by (simp add: y_def m_def)
  have ny: "1 \<le> ny" "ny \<le> 9999" using yr(1-4) y9 by (auto simp: ny_def)
  have nm: "1 \<le> nm" "nm \<le> 12" using yr(3,4) by (auto simp: nm_def)
  have dim: "28 \<le> dim" "dim \<le> 31" unfolding dim_def by (rule days_in_month_range)+
  have day: "1 \<le> day" "day \<le> dim" using assms(3) dim by (simp_all add: day_def)
  have c: "check_time_fields h mi 0 0"
    using assms(5-8) by (simp add: check_time_fields_def)
  have mk: "mk_datetime ny nm day h mi = Inr r"
    using ny nm day dim c assms(5-8) by (simp add: mk_datetime_def dim_def r_def c_int_def)
  have inner: "(case mk_datetime ny nm d h mi of
                  Inr nxt \<Rightarrow> Inr nxt
                | Inl e \<Rightarrow>
                    if e = ValueError then
                      (case monthrange_ndays ny nm of
                         Inl e' \<Rightarrow> Inl e'
                       | Inr last_day \<Rightarrow> mk_datetime ny nm last_day h mi)
                    else Inl e) = Inr r"
  proof (cases "d \<le> dim")
    case True
    then have "day = d" by (simp add: day_def)
    with mk show ?thesis by simp
  next
    case False
    then have "day = dim" by (simp add: day_def)
    moreover have "mk_datetime ny nm d h mi = Inl ValueError"
      using False ny nm assms(3-8) by (simp add: mk_datetime_def dim_def c_int_def)
    moreover have "monthrange_ndays ny nm = Inr dim"
      using nm by (simp add: monthrange_ndays_def dim_def)
    ultimately show ?thesis using mk by simp
  qed
  have "ymd2ord ny nm 1 = ymd2ord y m 1 + days_in_month y m"
    unfolding ny_def nm_def using yr(3,4) by (rule next_month_first)
  moreover have "ymd2ord ny nm day = ymd2ord ny nm 1 + (day - 1)"
    and "ymd2ord y m (snd (snd (ord2ymd (toordinal t)))) = ymd2ord y m 1
           + (snd (snd (ord2ymd (toordinal t))) - 1)"
    by (simp_all add: ymd2ord_def)
  ultimately have "toordinal t + 1 \<le> ymd2ord ny nm day"
    using yr(6,7) day(1) by linarith
  then have "toordinal t * 86400000000 \<le> (ymd2ord ny nm day - 1) * 86400000000"
    by simp
  then have tr': "t < r"
    using tr(3) combine_lower [OF assms(5,7), of "ymd2ord ny nm day"] by (simp add: r_def)
  have "try_block task t rec =
      (case (case mk_datetime ny nm d h mi of
                  Inr nxt \<Rightarrow> Inr nxt
                | Inl e \<Rightarrow>
                    if e = ValueError then
                      (case monthrange_ndays ny nm of
                         Inl e' \<Rightarrow> Inl e'
                       | Inr last_day \<Rightarrow> mk_datetime ny nm last_day h mi)
                    else Inl e) of
         Inl e \<Rightarrow> Inl e
       | Inr nxt \<Rightarrow> if nxt > t then Inr nxt else rec)"
    unfolding ny_def nm_def y_def m_def using assms(1,2) by (simp add: try_block_def Let_def)
  then have "try_block task t rec = Inr r"
    unfolding inner using tr' by simp
  then have "calculate_next_run task t = Inr r"
    by (simp add: calculate_next_run_unfold [of task t] rec_def)
  then show "let next_month = (if dt_month t + 1 > 12 then 1 else dt_month t + 1);
              next_year = (if dt_month t + 1 > 12 then dt_year t + 1 else dt_year t);
              day = min d (days_in_month next_year next_month)
          in calculate_next_run task t = mk_datetime next_year next_month day h mi
             \<and> (\<exists>r. mk_datetime next_year next_month day h mi = Inr r \<and> t < r)"
    using mk tr'
    unfolding Let_def day_def dim_def ny_def nm_def y_def m_def by simp
next
  show "calculate_next_run
        \<lparr>name = ''n'', source = ''s'', destination = ''d'', compression = True,
         frequency = ''monthly'', time_params = PTuple [31, 0, 0], last_run = None,
         next_run = 0\<rparr> 63841305600000000 = Inr 63844761600000000"
    by (subst calculate_next_run.simps)
      (simp add: Let_def dt_month_def dt_year_def toordinal_def ord2ymd_def month_day_def
        days_before_month_common_def mdays_def mk_datetime_def days_in_month_def is_leap_def
        monthrange_ndays_def check_time_fields_def combine_def ymd2ord_def
        days_before_month_def days_before_year_def c_int_def)
next
  show "ord2ymd (toordinal 63841305600000000) = (2024, 1, 20)"
    by (simp add: Let_def toordinal_def ord2ymd_def month_day_def
        days_before_month_common_def mdays_def)
next
  show "ord2ymd (toordinal 63844761600000000) = (2024, 2, 29)"
    by (simp add: Let_def toordinal_def ord2ymd_def month_day_def
        days_before_month_common_def mdays_def)
qed

theorem monthly_next_run_witness:
  "calculate_next_run
      \<lparr>name = ''n'', source = ''s'', destination = ''d'', compression = True,
       frequency = ''monthly'', time_params = PTuple [31, 0, 0], last_run = None,
       next_run = 0\<rparr> 63841305600000000 = mk_datetime 2024 2 29 0 0
   \<and> mk_datetime 2024 2 29 0 0 = Inr 63844761600000000"
proof -
  have m: "dt_month 63841305600000000 = 1" "dt_year 63841305600000000 = 2024"
    by (simp_all add: Let_def dt_month_def dt_year_def toordinal_def ord2ymd_def month_day_def
        days_before_month_common_def mdays_def)
  have d: "days_in_month 2024 2 = 29"
    by (simp add: days_in_month_def is_leap_def)
  have k: "mk_datetime 2024 2 29 0 0 = Inr 63844761600000000"
    by (simp add: mk_datetime_def days_in_month_def is_leap_def check_time_fields_def
        combine_def ymd2ord_def days_before_month_def days_before_month_common_def
        days_before_year_def c_int_def)
  show ?thesis
    using monthly_next_run [of "\<lparr>name = ''n'', source = ''s'', destination = ''d'',
       compression = True, frequency = ''monthly'', time_params = PTuple [31, 0, 0],
       last_run = None, next_run = 0\<rparr>" 31 0 0 63841305600000000]
    by (simp add: m d k valid_datetime_def datetime_limit_def Let_def)
qed

theorem monthly_december_9999_counterexample:
  "valid_datetime 315535219200000000
   \<and> ord2ymd (toordinal 315535219200000000) = (9999, 12, 1)
   \<and> calculate_next_run
        \<lparr>name = ''n'', source = ''s'', destination = ''d'', compression = True,
         frequency = ''monthly'', time_params = PTuple [15, 0, 0], last_run = None,
         next_run = 0\<rparr> 315535219200000000 = Inr 315535219500000000
   \<and> ord2ymd (toordinal 315535219500000000) = (9999, 12, 1)
   \<and> dt_minute 315535219500000000 = 5"
proof (intro conjI)
  show "valid_datetime 315535219200000000"
    by (simp add: valid_datetime_def datetime_limit_def)
  show "ord2ymd (toordinal 315535219200000000) = (9999, 12, 1)"
    by (simp add: Let_def toordinal_def ord2ymd_def month_day_def
        days_before_month_common_def mdays_def)
  show "ord2ymd (toordinal 315535219500000000) = (9999, 12, 1)"
    by (simp add: Let_def toordinal_def ord2ymd_def month_day_def
        days_before_month_common_def mdays_def)
  show "dt_minute 315535219500000000 = 5"
    by (simp add: dt_minute_def)
  show "calculate_next_run
        \<lparr>name = ''n'', source = ''s'', destination = ''d'', compression = True,
         frequency = ''monthly'', time_params = PTuple [15, 0, 0], last_run = None,
         next_run = 0\<rparr> 315535219200000000 = Inr 315535219500000000"
    by (subst calculate_next_run.simps)
      (simp add: Let_def dt_month_def dt_year_def toordinal_def ord2ymd_def month_day_def
        days_before_month_common_def mdays_def mk_datetime_def days_in_month_def is_leap_def
        monthrange_ndays_def check_time_fields_def dt_add_def minutes_def datetime_limit_def
        c_int_def)
qed

section \<open>Properties of the persistence\<close>

text \<open>
  A tuple of parameters comes back from the file as a list; \<open>calculate_next_run\<close> unpacks
  both in the same way.
\<close>

lemma unpack_json:
  "unpack2 (json_params p) = unpack2 p" "unpack3 (json_params p) = unpack3 p"
proof -
  show "unpack2 (json_params p) = unpack2 p"
    by (cases p rule: unpack2.cases) simp_all
  show "unpack3 (json_params p) = unpack3 p"
    by (cases p rule: unpack3.cases) simp_all
qed

lemma unpack_list:
  "unpack2 (PList xs) = unpack2 (PTuple xs)" "unpack3 (PList xs) = unpack3 (PTuple xs)"
  using unpack_json [of "PTuple xs"] by simp_all

lemma try_block_json:
  assumes "frequency a = frequency b" "time_params b = json_params (time_params a)"
  shows "try_block a now rec = try_block b now rec"
  using assms
  by (cases "time_params a") (simp_all add: try_block_def unpack_list)

lemma calculate_next_run_json:
  assumes "frequency a = frequency b" "time_params b = json_params (time_params a)"
  shows "calculate_next_run a now = calculate_next_run b now"
proof (induction "nat (datetime_limit - now)" arbitrary: now rule: less_induct)
  case less
  have "(case dt_add now (days 1) of Inl e \<Rightarrow> Inl e | Inr now' \<Rightarrow> calculate_next_run a now')
      = (case dt_add now (days 1) of Inl e \<Rightarrow> Inl e | Inr now' \<Rightarrow> calculate_next_run b now')"
  proof (cases "dt_add now (days 1)")
    case (Inl e)
    then show ?thesis by simp
  next
    case (Inr now')
    then have "now' = now + 86400000000" "now' < datetime_limit"
      by (auto simp: dt_add_def days_def split: if_splits)
    then have "nat (datetime_limit - now') < nat (datetime_limit - now)" by simp
    then have "calculate_next_run a now' = calculate_next_run b now'" by (rule less)
    with Inr show ?thesis by simp
  qed
  then show ?case
    by (simp add: calculate_next_run_unfold [of a now] calculate_next_run_unfold [of b now]
        try_block_json [OF assms])
qed

lemma param_values_json:
  "param_values (json_params p) = param_values p" "is_sequence (json_params p) = is_sequence p"
  by (cases p; simp)+

text \<open>
  Claim C7 says that a task written by \<open>to_dict\<close> and \<open>json.dump\<close> and read back by
  \<open>load_tasks\<close> has identical name, source, destination, compression, frequency and
  parameters, with \<open>next_run\<close> computed at the time of the load. Two things stand against
  it as written. A tuple of parameters, which the dialog builds for every daily, weekly
  and monthly task, is written as a JSON array and read back as a list: the values and
  their order are the same, the object is not equal to the one saved. And in the last
  five minutes before the largest datetime the constructor of the reloaded task raises
  OverflowError. With the clock of the load at least five minutes before the end, the
  reloaded task has the same name, source, destination, compression, frequency and
  \<open>last_run\<close>, its parameters are those of the saved task after the passage through JSON
  (same values, a tuple become a list), \<open>calculate_next_run\<close> gives for it what it gives
  for the saved task at every reference time, and its \<open>next_run\<close> is computed at the time
  of the load and does not depend on the \<open>next_run\<close> the task had when it was saved.
\<close>

theorem persistence_round_trip:
  assumes "valid_datetime t1" and "t1 + minutes 5 < datetime_limit"
    and "valid_datetime t2" and "t2 + minutes 5 < datetime_limit"
  shows "\<exists>task'. load_task (json_dump_load (to_dict task)) t1 t2 = Inr task'
     \<and> name task' = name task \<and> source task' = source task
     \<and> destination task' = destination task \<and> compression task' = compression task
     \<and> frequency task' = frequency task
     \<and> time_params task' = json_params (time_params task)
     \<and> param_values (time_params task') = param_values (time_params task)
     \<and> is_sequence (time_params task') = is_sequence (time_params task)
     \<and> last_run task' = last_run task
     \<and> load_task (json_dump_load (to_dict (task\<lparr>next_run := x\<rparr>))) t1 t2 = Inr task'
     \<and> (\<forall>t. calculate_next_run task' t = calculate_next_run task t)
     \<and> calculate_next_run task' t2 = Inr (next_run task')"
proof -
  define self where "self = \<lparr>name = name task, source = source task,
     destination = destination task, compression = compression task,
     frequency = frequency task, time_params = json_params (time_params task),
     last_run = None, next_run = t1\<rparr>"
  have fs: "frequency task = frequency self" "time_params self = json_params (time_params task)"
    by (simp_all add: self_def)
  obtain r1 where r1: "calculate_next_run self t1 = Inr r1"
    using calculate_next_run_total [of t1 self] assms(1,2) by (auto simp: valid_datetime_def)
  define task1 where "task1 = self\<lparr>next_run := r1, last_run := last_run task\<rparr>"
  have c1: "calculate_next_run task1 t = calculate_next_run task t" for t
    using calculate_next_run_json [of task task1 t] by (simp add: task1_def self_def)
  obtain r2 where r2: "calculate_next_run task1 t2 = Inr r2"
    using calculate_next_run_total [of t2 task1] assms(3,4) by (auto simp: valid_datetime_def)
  define task2 where "task2 = task1\<lparr>next_run := r2\<rparr>"
  have c2: "calculate_next_run task2 t = calculate_next_run task1 t" for t
    using calculate_next_run_cong [of task2 task1 t] by (simp add: task2_def)
  have l: "(case last_run task of None \<Rightarrow> None | Some t \<Rightarrow> Some (Iso t)) = x
    \<Longrightarrow> (case x of None \<Rightarrow> None | Some (Iso t) \<Rightarrow> Some t) = last_run task" for x
    by (cases "last_run task") auto
  have "load_task (json_dump_load (to_dict task)) t1 t2 = Inr task2"
    using r1 r2 l
    by (simp add: load_task_def json_dump_load_def to_dict_def BackupTask_init_def
        self_def [symmetric] task1_def task2_def)
  moreover have "to_dict (task\<lparr>next_run := x\<rparr>) = to_dict task"
    by (simp add: to_dict_def)
  moreover have "last_run task2 = last_run task"
    by (simp add: task2_def task1_def)
  moreover have "time_params task2 = json_params (time_params task)"
    by (simp add: task2_def task1_def self_def)
  ultimately show ?thesis
    using c1 c2 r2 by (auto simp: task2_def task1_def self_def param_values_json)
qed

theorem persistence_round_trip_witness:
  "\<exists>task'. load_task (json_dump_load (to_dict
        \<lparr>name = ''n'', source = ''s'', destination = ''d'', compression = True,
         frequency = ''daily'', time_params = PTuple [3, 30], last_run = Some 7,
         next_run = 11\<rparr>)) 63839700900000000 63839700900000000 = Inr task'
     \<and> name task' = ''n'' \<and> source task' = ''s'' \<and> destination task' = ''d''
     \<and> compression task' = True \<and> frequency task' = ''daily''
     \<and> time_params task' = PList [3, 30]
     \<and> param_values (time_params task') = [3, 30]
     \<and> is_sequence (time_params task') = True
     \<and> last_run task' = Some 7"
  using persistence_round_trip [of 63839700900000000 63839700900000000
      "\<lparr>name = ''n'', source = ''s'', destination = ''d'', compression = True,
         frequency = ''daily'', time_params = PTuple [3, 30], last_run = Some 7,
         next_run = 11\<rparr>" 11]
  by (auto simp: valid_datetime_def datetime_limit_def minutes_def)

theorem reloaded_tuple_is_list_counterexample:
  "load_task (json_dump_load (to_dict
        \<lparr>name = ''n'', source = ''s'', destination = ''d'', compression = True,
         frequency = ''daily'', time_params = PTuple [3, 30], last_run = Some 7,
         next_run = 11\<rparr>)) 63839700900000000 63839700900000000
   = Inr \<lparr>name = ''n'', source = ''s'', destination = ''d'', compression = True,
         frequency = ''daily'', time_params = PList [3, 30], last_run = Some 7,
         next_run = 63839763000000000\<rparr>
   \<and> PList [3, 30] \<noteq> PTuple [3, 30]
   \<and> valid_datetime 315537897480000000
   \<and> load_task (json_dump_load (to_dict
        \<lparr>name = ''n'', source = ''s'', destination = ''d'', compression = True,
         frequency = ''daily'', time_params = PTuple [3, 30], last_run = Some 7,
         next_run = 11\<rparr>)) 315537897480000000 315537897480000000
     = Inl OverflowError"
proof -
  have a: "calculate_next_run
      \<lparr>name = ''n'', source = ''s'', destination = ''d'', compression = True,
       frequency = ''daily'', time_params = PList [3, 30], last_run = lr, next_run = nr\<rparr>
      63839700900000000 = Inr 63839763000000000" for lr nr
    by (subst calculate_next_run.simps)
      (simp add: replace_hmsu_def check_time_fields_def toordinal_def combine_def dt_add_def
        days_def datetime_limit_def)
  have b: "calculate_next_run
      \<lparr>name = ''n'', source = ''s'', destination = ''d'', compression = True,
       frequency = ''daily'', time_params = PList [3, 30], last_run = lr, next_run = nr\<rparr>
      315537897480000000 = Inl OverflowError" for lr nr
    by (subst calculate_next_run.simps)
      (simp add: replace_hmsu_def check_time_fields_def toordinal_def combine_def dt_add_def
        days_def minutes_def datetime_limit_def)
  show ?thesis
    by (simp add: load_task_def json_dump_load_def to_dict_def BackupTask_init_def a b
        valid_datetime_def datetime_limit_def)
qed

section \<open>Properties of the edit of a task\<close>

text \<open>
  Claim C10: when the dialog of \<open>edit_task\<close> is closed with OK and gives a result, the
  entry of the selected task is replaced by the task that the dialog has constructed:
  its \<open>last_run\<close> is None, whatever the \<open>last_run\<close> of the task before, and its \<open>next_run\<close> is
  what \<open>calculate_next_run\<close> gives at the time of the construction.
\<close>

theorem edit_resets_last_run:
  assumes "index < length tasks" and "on_ok f now = Some result"
  shows "edit_task tasks (Some index) (Some f) now = Inr (tasks[index := result])
     \<and> (tasks[index := result]) ! index = result
     \<and> last_run result = None
     \<and> calculate_next_run result now = Inr (next_run result)"
proof -
  from assms(2) obtain tp self r where
    self: "self = \<lparr>name = f_name f, source = f_source f, destination = f_dest f,
       compression = f_compression f, frequency = f_frequency f, time_params = tp,
       last_run = None, next_run = now\<rparr>"
    and r: "calculate_next_run self now = Inr r"
    and res: "result = self\<lparr>next_run := r\<rparr>"
    by (auto simp: on_ok_def BackupTask_init_def Let_def split: if_splits sum.splits)
  have "calculate_next_run result now = calculate_next_run self now"
    by (rule calculate_next_run_cong) (simp_all add: res)
  then show ?thesis
    using assms r res self by (simp add: edit_task_def)
qed

theorem edit_resets_last_run_witness:
  "on_ok \<lparr>f_name = ''n'', f_source = ''s'', f_dest = ''d'', f_compression = True,
      f_frequency = ''hourly'', f_day = Some 1, f_weekday = 0, f_hour = Some 0,
      f_minute = Some 30\<rparr> 63839700900000000
   = Some \<lparr>name = ''n'', source = ''s'', destination = ''d'', compression = True,
      frequency = ''hourly'', time_params = PInt 30, last_run = None,
      next_run = 63839701800000000\<rparr>
   \<and> edit_task
      [\<lparr>name = ''old'', source = ''s'', destination = ''d'', compression = False,
        frequency = ''hourly'', time_params = PInt 0, last_run = Some 63839700000000000,
        next_run = 63839700000000000\<rparr>] (Some 0)
      (Some \<lparr>f_name = ''n'', f_source = ''s'', f_dest = ''d'', f_compression = True,
        f_frequency = ''hourly'', f_day = Some 1, f_weekday = 0, f_hour = Some 0,
        f_minute = Some 30\<rparr>) 63839700900000000
   = Inr [\<lparr>name = ''n'', source = ''s'', destination = ''d'', compression = True,
      frequency = ''hourly'', time_params = PInt 30, last_run = None,
      next_run = 63839701800000000\<rparr>]"
proof -
  have c: "calculate_next_run
      \<lparr>name = ''n'', source = ''s'', destination = ''d'', compression = True,
       frequency = ''hourly'', time_params = PInt 30, last_run = None,
       next_run = 63839700900000000\<rparr> 63839700900000000 = Inr 63839701800000000"
    by (subst calculate_next_run.simps)
      (simp add: replace_msu_def replace_hmsu_def check_time_fields_def dt_hour_def
        toordinal_def combine_def)
  have o: "on_ok \<lparr>f_name = ''n'', f_source = ''s'', f_dest = ''d'', f_compression = True,
      f_frequency = ''hourly'', f_day = Some 1, f_weekday = 0, f_hour = Some 0,
      f_minute = Some 30\<rparr> 63839700900000000
   = Some \<lparr>name = ''n'', source = ''s'', destination = ''d'', compression = True,
      frequency = ''hourly'', time_params = PInt 30, last_run = None,
      next_run = 63839701800000000\<rparr>"
    by (simp add: on_ok_def form_time_params_def int_of_spinbox_def BackupTask_init_def c)
  show ?thesis
    using o edit_resets_last_run [OF _ o, of 0
      "[\<lparr>name = ''old'', source = ''s'', destination = ''d'', compression = False,
        frequency = ''hourly'', time_params = PInt 0, last_run = Some 63839700000000000,
        next_run = 63839700000000000\<rparr>]"]
    by simp
qed

end
